theory Spec2Isabelle
  imports Main "HOL-Library.Sublist" "HOL-Library.AList"
begin

section \<open>Text: characters, whitespace, paths\<close>

text \<open>
  The scripts handle Python \<open>str\<close> values. A \<open>string\<close> of the model is the list of
  the code points of such a value, each below 256 (the Latin-1 range, which contains
  ASCII). The character classes below are Python's classes restricted to that range:
  \<open>str.isspace\<close> (which is also the regular expression class \<open>\s\<close> and what
  \<open>str.strip\<close> removes), the decimal digits \<open>\d\<close>, the word characters \<open>\w\<close>
  (alphanumeric or underscore) and \<open>.\<close>, every character but the line feed.
\<close>

definition newline :: char where
  "newline = CHR 0x0A"

definition isspace :: "char \<Rightarrow> bool" where
  "isspace c \<longleftrightarrow>
     (9 \<le> (of_char c :: nat) \<and> (of_char c :: nat) \<le> 13) \<or>
     (28 \<le> (of_char c :: nat) \<and> (of_char c :: nat) \<le> 32) \<or>
     (of_char c :: nat) = 133 \<or> (of_char c :: nat) = 160"

definition isdigit :: "char \<Rightarrow> bool" where
  "isdigit c \<longleftrightarrow> 48 \<le> (of_char c :: nat) \<and> (of_char c :: nat) \<le> 57"

definition isword :: "char \<Rightarrow> bool" where
  "isword c \<longleftrightarrow>
     isdigit c \<or>
     (65 \<le> (of_char c :: nat) \<and> (of_char c :: nat) \<le> 90) \<or>
     (97 \<le> (of_char c :: nat) \<and> (of_char c :: nat) \<le> 122) \<or>
     (of_char c :: nat) = 95 \<or>
     (of_char c :: nat) \<in> {170, 178, 179, 181, 185, 186, 188, 189, 190} \<or>
     (192 \<le> (of_char c :: nat) \<and> (of_char c :: nat) \<noteq> 215 \<and> (of_char c :: nat) \<noteq> 247)"

definition anychar :: "char \<Rightarrow> bool" where
  "anychar c \<longleftrightarrow> c \<noteq> newline"

text \<open>\<open>s.strip()\<close>: leading and trailing whitespace removed.\<close>

definition strip :: "string \<Rightarrow> string" where
  "strip s = rev (dropWhile isspace (rev (dropWhile isspace s)))"

text \<open>
  \<open>os.path.join(a, b)\<close> with two arguments, as \<open>posixpath.join\<close> computes it: an
  absolute \<open>b\<close> replaces \<open>a\<close>; otherwise \<open>b\<close> is appended, after a separator unless
  \<open>a\<close> is empty or ends with one.
\<close>

definition path_join :: "string \<Rightarrow> string \<Rightarrow> string" where
  "path_join a b =
     (if prefix ''/'' b then b
      else if a = [] \<or> last a = CHR ''/'' then a @ b
      else a @ ''/'' @ b)"

text \<open>Truthiness of an optional string: \<open>None\<close> and \<open>""\<close> are false.\<close>

fun truthy :: "string option \<Rightarrow> bool" where
  "truthy None = False"
| "truthy (Some s) = (s \<noteq> [])"

section \<open>Regular expressions\<close>

text \<open>
  The fragment of Python's \<open>re\<close> syntax the scripts use: literal text, one character
  of a class, the greedy repetitions \<open>c*\<close> and \<open>c+\<close> and the lazy repetition \<open>c*?\<close>
  of a class, concatenation, alternation, numbered capturing groups and \<open>$\<close>.
\<close>

datatype regex =
    Lit string
  | One "char \<Rightarrow> bool"
  | Star "char \<Rightarrow> bool"
  | Plus "char \<Rightarrow> bool"
  | LazyStar "char \<Rightarrow> bool"
  | Seq regex regex
  | Alt regex regex
  | Group nat regex
  | Eos

text \<open>
  A match object is the mapping from group numbers to the captured text; \<open>group n\<close> of a
  group that took no part in the match is \<open>None\<close>.
\<close>

type_synonym groups = "nat \<Rightarrow> string option"

text \<open>
  The matcher is the backtracking matcher of \<open>re\<close>, in continuation-passing style: it
  runs on the text that is left, and the continuation is the rest of the pattern. An
  alternative or a repetition hands the continuation its choices in the order of
  preference (greedy: longest first; lazy: shortest first) and keeps the first that
  lets the rest of the pattern match.
\<close>

fun star_greedy :: "(char \<Rightarrow> bool) \<Rightarrow> (string \<Rightarrow> 'a option) \<Rightarrow> string \<Rightarrow> 'a option" where
  "star_greedy p k [] = k []"
| "star_greedy p k (c # cs) =
     (if p c then (case star_greedy p k cs of Some r \<Rightarrow> Some r | None \<Rightarrow> k (c # cs))
      else k (c # cs))"

fun star_lazy :: "(char \<Rightarrow> bool) \<Rightarrow> (string \<Rightarrow> 'a option) \<Rightarrow> string \<Rightarrow> 'a option" where
  "star_lazy p k [] = k []"
| "star_lazy p k (c # cs) =
     (case k (c # cs) of Some r \<Rightarrow> Some r
      | None \<Rightarrow> if p c then star_lazy p k cs else None)"

text \<open>
  \<open>$\<close> without the MULTILINE flag matches at the end of the text and just before a
  line feed that ends the text.
\<close>

primrec rmatch :: "regex \<Rightarrow> (groups \<Rightarrow> string \<Rightarrow> 'a option) \<Rightarrow> groups \<Rightarrow> string \<Rightarrow> 'a option" where
  "rmatch (Lit l) k g s = (if prefix l s then k g (drop (length l) s) else None)"
| "rmatch (One p) k g s = (case s of [] \<Rightarrow> None | c # cs \<Rightarrow> if p c then k g cs else None)"
| "rmatch (Star p) k g s = star_greedy p (k g) s"
| "rmatch (Plus p) k g s =
     (case s of [] \<Rightarrow> None | c # cs \<Rightarrow> if p c then star_greedy p (k g) cs else None)"
| "rmatch (LazyStar p) k g s = star_lazy p (k g) s"
| "rmatch (Seq a b) k g s = rmatch a (rmatch b k) g s"
| "rmatch (Alt a b) k g s =
     (case rmatch a k g s of Some r \<Rightarrow> Some r | None \<Rightarrow> rmatch b k g s)"
| "rmatch (Group n a) k g s =
     rmatch a (\<lambda>g' s'. k (g'(n := Some (take (length s - length s') s))) s') g s"
| "rmatch Eos k g s = (if s = [] \<or> s = [newline] then k g s else None)"

text \<open>The pattern matched at the start of the text: the groups, if it matches.\<close>

definition match_here :: "regex \<Rightarrow> string \<Rightarrow> groups option" where
  "match_here r s = rmatch r (\<lambda>g s'. Some g) (\<lambda>n. None) s"

text \<open>
  \<open>re.search(pattern, text)\<close>: the match at the leftmost position where the pattern
  matches, the end of the text included; \<open>None\<close> when there is none.
\<close>

fun re_search :: "regex \<Rightarrow> string \<Rightarrow> groups option" where
  "re_search r [] = match_here r []"
| "re_search r (c # cs) =
     (case match_here r (c # cs) of Some g \<Rightarrow> Some g | None \<Rightarrow> re_search r cs)"

text \<open>\<open>str(n)\<close> of an integer: its decimal digits, after a minus sign when negative.\<close>

fun str_nat :: "nat \<Rightarrow> string" where
  "str_nat n =
     (if n < 10 then [''0123456789'' ! n]
      else str_nat (n div 10) @ [''0123456789'' ! (n mod 10)])"

declare str_nat.simps [simp del]

definition str_int :: "int \<Rightarrow> string" where
  "str_int i = (if i < 0 then ''-'' @ str_nat (nat (- i)) else str_nat (nat i))"

text \<open>An optional string inside an f-string or a \<open>print\<close>: \<open>None\<close> prints as \<open>None\<close>.\<close>

fun str_opt :: "string option \<Rightarrow> string" where
  "str_opt None = ''None''"
| "str_opt (Some s) = s"

section \<open>The world outside the scripts\<close>

text \<open>
  What a script observes of its environment during one run. \<open>subprocess\<close> gives the
  outcome of running an argument vector: the exit status with the text of the two
  output streams, or the failure to start the program (an \<open>OSError\<close>, for instance
  when \<open>autorep\<close> is not installed). \<open>shell\<close> gives exit status, standard output and
  standard error of a command line run through the shell. The environment is a
  snapshot: the same question has the same answer throughout a run. The output of a
  command is text: every script captures with \<open>text=True\<close>, and the bytes a
  command writes are taken to decode (a command that writes bytes that do not decode
  makes \<open>subprocess.run\<close> raise \<open>UnicodeDecodeError\<close>, which the summarizers do
  not catch; such commands are outside this model). The shell itself is taken to
  start. Writing to the terminal, the temporary directory of the log presenter
  (created, never used, removed) and the answers to the prompts are taken to succeed.
\<close>

datatype proc_result = Completed int string string | LaunchError string

record env =
  subprocess :: "string list \<Rightarrow> proc_result"
  shell :: "string \<Rightarrow> int \<times> string \<times> string"
  path_exists :: "string \<Rightarrow> bool"
  read_file :: "string \<Rightarrow> string + string"
  getpass_reply :: "string \<Rightarrow> string"
  input_reply :: "string \<Rightarrow> string"
  now_isoformat :: string

text \<open>
  Exceptions. \<open>CalledProcessError cmd returncode stdout stderr\<close> carries the captured
  streams, \<open>None\<close> when the run did not capture them. \<open>RuntimeError msg e\<close> is the
  error whose message is \<open>msg\<close> followed by \<open>str(e)\<close>.
\<close>

datatype exn =
    CalledProcessError "string list" int "string option" "string option"
  | OSError string
  | TypeError
  | AttributeError
  | RuntimeError string exn

datatype json = JNull | JString string | JInt int | JObject "(string \<times> json) list"

text \<open>
  What a run does that can be seen from outside, in order. \<open>Print s\<close> is
  \<open>print(s)\<close>; \<open>PrintExn s e\<close> is \<open>print(f"{s}{e}")\<close> for an exception \<open>e\<close>
  (the rendering \<open>str(e)\<close> is the library's and is not expanded); \<open>PrintErr\<close> writes
  to standard error; \<open>PrintJson doc indent\<close> is \<open>print(json.dumps(doc, indent=indent))\<close>;
  \<open>Exec\<close> and \<open>Shell\<close> start an external command; \<open>ChildOutput out err\<close> is what a
  command that was not captured wrote to the terminal itself; \<open>Getpass\<close> asks without
  echo, \<open>Input\<close> asks in plain text; \<open>ParserError\<close> is \<open>parser.error\<close>'s message.
\<close>

datatype event =
    Print string
  | PrintExn string exn
  | PrintErr string
  | PrintJson json "nat option"
  | Exec "string list"
  | Shell string
  | ChildOutput string string
  | Getpass string
  | Input string
  | ParserError string

text \<open>
  \<open>subprocess.run(cmd, capture_output=True, text=True, check=True)\<close>: the captured
  streams, or the exception raised.
\<close>

definition run_captured :: "env \<Rightarrow> string list \<Rightarrow> exn + (string \<times> string)" where
  "run_captured w cmd =
     (case subprocess w cmd of
        LaunchError msg \<Rightarrow> Inl (OSError msg)
      | Completed rc out err \<Rightarrow>
          if rc \<noteq> 0 then Inl (CalledProcessError cmd rc (Some out) (Some err))
          else Inr (out, err))"

text \<open>
  \<open>subprocess.run(cmd, check=True)\<close>: the command writes to the terminal itself; the
  exception carries no stream.
\<close>

definition run_inherited :: "env \<Rightarrow> string list \<Rightarrow> event list \<times> exn option" where
  "run_inherited w cmd =
     (case subprocess w cmd of
        LaunchError msg \<Rightarrow> ([Exec cmd], Some (OSError msg))
      | Completed rc out err \<Rightarrow>
          ([Exec cmd, ChildOutput out err],
           if rc \<noteq> 0 then Some (CalledProcessError cmd rc None None) else None))"

section \<open>The job details record and its patterns\<close>

record job_details =
  job_name :: string
  status :: "string option"
  last_run :: "string option"
  std_out_file :: "string option"
  std_err_file :: "string option"

definition date_char :: "char \<Rightarrow> bool" where
  "date_char c \<longleftrightarrow> isdigit c \<or> c = CHR ''/''"

definition time_char :: "char \<Rightarrow> bool" where
  "time_char c \<longleftrightarrow> isdigit c \<or> c = CHR '':''"

text \<open>
  \<open>label\s*(.*?)(?:\s+|$)\<close>, the shape of the patterns for \<open>std_out_file:\<close>,
  \<open>std_err_file:\<close> and \<open>job_dir:\<close> in both log retrievers.
\<close>

definition labelled_pattern :: "string \<Rightarrow> regex" where
  "labelled_pattern label =
     Seq (Lit label) (Seq (Star isspace)
       (Seq (Group 1 (LazyStar anychar)) (Alt (Plus isspace) Eos)))"

definition STD_OUT_FILE_PATTERN :: regex where
  "STD_OUT_FILE_PATTERN = labelled_pattern ''std_out_file:''"

definition STD_ERR_FILE_PATTERN :: regex where
  "STD_ERR_FILE_PATTERN = labelled_pattern ''std_err_file:''"

definition JOB_DIR_PATTERN :: regex where
  "JOB_DIR_PATTERN = labelled_pattern ''job_dir:''"

text \<open>
  The plain retriever: \<open>Status/Event: (\w+)\<close> and \<open>Last Run: ([\d\/]+\s+[\d:]+)\<close>.
\<close>

definition logs_status_pattern :: regex where
  "logs_status_pattern = Seq (Lit ''Status/Event: '') (Group 1 (Plus isword))"

definition logs_last_run_pattern :: regex where
  "logs_last_run_pattern =
     Seq (Lit ''Last Run: '')
       (Group 1 (Seq (Plus date_char) (Seq (Plus isspace) (Plus time_char))))"

text \<open>
  The authenticated retriever: \<open>Status/Event:\s+(\w+)\<close> and
  \<open>Last Run:\s+([\d/]+\s+[\d:]+)\<close>.
\<close>

definition STATUS_PATTERN :: regex where
  "STATUS_PATTERN = Seq (Lit ''Status/Event:'') (Seq (Plus isspace) (Group 1 (Plus isword)))"

definition LAST_RUN_PATTERN :: regex where
  "LAST_RUN_PATTERN =
     Seq (Lit ''Last Run:'') (Seq (Plus isspace)
       (Group 1 (Seq (Plus date_char) (Seq (Plus isspace) (Plus time_char)))))"

section \<open>autosys-logs.py\<close>

text \<open>
  The body of \<open>get_job_details\<close> after the command returned its report: the record is
  initialised and filled field by field. \<open>os.path.join\<close> of a group that took no part
  in the match (\<open>None\<close>) raises \<open>TypeError\<close>.
\<close>

definition logs_parse_report :: "string \<Rightarrow> string \<Rightarrow> exn + job_details" where
  "logs_parse_report job report =
     (let d0 = \<lparr>job_name = job, status = None, last_run = None,
                 std_out_file = None, std_err_file = None\<rparr>;
          d1 = (case re_search logs_status_pattern report of
                  Some m \<Rightarrow> d0\<lparr>status := m 1\<rparr> | None \<Rightarrow> d0);
          d2 = (case re_search logs_last_run_pattern report of
                  Some m \<Rightarrow> d1\<lparr>last_run := m 1\<rparr> | None \<Rightarrow> d1);
          d3 = (case re_search STD_OUT_FILE_PATTERN report of
                  Some m \<Rightarrow> if truthy (m 1) then d2\<lparr>std_out_file := m 1\<rparr> else d2
                | None \<Rightarrow> d2);
          d4 = (case re_search STD_ERR_FILE_PATTERN report of
                  Some m \<Rightarrow> if truthy (m 1) then d3\<lparr>std_err_file := m 1\<rparr> else d3
                | None \<Rightarrow> d3)
      in if \<not> truthy (std_out_file d4) \<or> \<not> truthy (std_err_file d4) then
           (case re_search JOB_DIR_PATTERN report of
              None \<Rightarrow> Inr d4
            | Some m \<Rightarrow>
                (case m 1 of
                   None \<Rightarrow> Inl TypeError
                 | Some log_dir \<Rightarrow>
                     (let d5 = (if \<not> truthy (std_out_file d4)
                                then d4\<lparr>std_out_file := Some (path_join log_dir (job @ ''.out''))\<rparr>
                                else d4);
                          d6 = (if \<not> truthy (std_err_file d5)
                                then d5\<lparr>std_err_file := Some (path_join log_dir (job @ ''.err''))\<rparr>
                                else d5)
                      in Inr d6)))
         else Inr d4)"

text \<open>
  \<open>get_job_details\<close>: the events, and the record or the status \<open>sys.exit\<close> was
  called with.
\<close>

definition logs_get_job_details :: "env \<Rightarrow> string \<Rightarrow> event list \<times> (int + job_details)" where
  "logs_get_job_details w job =
     (let cmd = [''autorep'', ''-j'', job, ''-L''] in
      case run_captured w cmd of
        Inl (CalledProcessError c rc out err) \<Rightarrow>
          ([Exec cmd,
            PrintExn ''Error retrieving job details: '' (CalledProcessError c rc out err),
            Print (''stderr: '' @ str_opt err)], Inl 1)
      | Inl e \<Rightarrow> ([Exec cmd, PrintExn ''Unexpected error: '' e], Inl 1)
      | Inr (report, _) \<Rightarrow>
          (case logs_parse_report job report of
             Inl e \<Rightarrow> ([Exec cmd, PrintExn ''Unexpected error: '' e], Inl 1)
           | Inr d \<Rightarrow> ([Exec cmd], Inr d)))"

text \<open>
  The two streams of \<open>get_job_logs\<close>: the source has the same block twice, once with
  \<open>std_out_file\<close>, \<open>STDOUT\<close>, \<open>stdout\<close>, \<open>-o\<close> and once with \<open>std_err_file\<close>,
  \<open>STDERR\<close>, \<open>stderr\<close>, \<open>-e\<close>.
\<close>

datatype stream = Stdout | Stderr

fun stream_path :: "stream \<Rightarrow> job_details \<Rightarrow> string option" where
  "stream_path Stdout d = std_out_file d"
| "stream_path Stderr d = std_err_file d"

fun stream_upper :: "stream \<Rightarrow> string" where
  "stream_upper Stdout = ''STDOUT''"
| "stream_upper Stderr = ''STDERR''"

fun stream_lower :: "stream \<Rightarrow> string" where
  "stream_lower Stdout = ''stdout''"
| "stream_lower Stderr = ''stderr''"

fun stream_flag :: "stream \<Rightarrow> string" where
  "stream_flag Stdout = ''-o''"
| "stream_flag Stderr = ''-e''"

definition report_header :: "job_details \<Rightarrow> event list" where
  "report_header d =
     [Print (newline # replicate 80 CHR ''=''),
      Print (''Job Name: '' @ job_name d),
      Print (''Status: '' @ str_opt (status d)),
      Print (''Last Run: '' @ str_opt (last_run d)),
      Print (replicate 80 CHR ''='' @ [newline])]"

definition logs_stream_section :: "env \<Rightarrow> job_details \<Rightarrow> stream \<Rightarrow> event list" where
  "logs_stream_section w d st =
     (case stream_path st d of
        None \<Rightarrow> [Print (newline # stream_upper st @ '' LOG: Not available'')]
      | Some path \<Rightarrow>
          if path = [] then [Print (newline # stream_upper st @ '' LOG: Not available'')]
          else
            [Print (newline # stream_upper st @ '' LOG ('' @ path @ ''):''),
             Print (replicate 80 CHR ''-'')] @
            (if path_exists w path then
               (case read_file w path of
                  Inr content \<Rightarrow> [Print content]
                | Inl msg \<Rightarrow>
                    [PrintExn (''Error accessing '' @ stream_lower st @ '' log: '') (OSError msg)])
             else
               Print (''Direct access to '' @ stream_lower st @
                      '' file failed. Attempting to retrieve via Autosys utilities...'') #
               (case run_inherited w [''autosyslog'', ''-j'', job_name d, stream_flag st] of
                  (evs, None) \<Rightarrow> evs
                | (evs, Some e) \<Rightarrow>
                    evs @ [PrintExn (''Error accessing '' @ stream_lower st @ '' log: '') e])))"

definition logs_get_job_logs :: "env \<Rightarrow> job_details \<Rightarrow> event list" where
  "logs_get_job_logs w d =
     report_header d @ logs_stream_section w d Stdout @ logs_stream_section w d Stderr"

text \<open>
  \<open>main\<close> on \<open>sys.argv\<close>: the events and the exit status of the process (0 when
  \<open>main\<close> returns).
\<close>

definition logs_main :: "env \<Rightarrow> string list \<Rightarrow> event list \<times> int" where
  "logs_main w argv =
     (case argv of
        [prog, job] \<Rightarrow>
          (case logs_get_job_details w job of
             (evs, Inl code) \<Rightarrow>
               (Print (''Retrieving logs for Autosys job: '' @ job) # evs, code)
           | (evs, Inr d) \<Rightarrow>
               (Print (''Retrieving logs for Autosys job: '' @ job) # evs @ logs_get_job_logs w d, 0))
      | prog # _ \<Rightarrow> ([Print (''Usage: '' @ prog @ '' <job_name>'')], 1)
      | [] \<Rightarrow> ([], 1))"

section \<open>autosys-logs-python-auth.py\<close>

text \<open>The fields of an \<open>AutosysLogRetriever\<close> that the methods read.\<close>

record retriever =
  username :: "string option"
  password :: "string option"
  instance_name :: "string option"
  server :: "string option"

text \<open>\<open>if v: cmd.extend([flag, v])\<close>.\<close>

definition extend_if :: "string list \<Rightarrow> string \<Rightarrow> string option \<Rightarrow> string list" where
  "extend_if cmd flag v =
     (case v of None \<Rightarrow> cmd | Some s \<Rightarrow> if s = [] then cmd else cmd @ [flag, s])"

text \<open>The command line \<open>get_job_details\<close> builds.\<close>

definition autorep_cmd :: "retriever \<Rightarrow> string \<Rightarrow> string list" where
  "autorep_cmd r job =
     (let cmd = [''autorep'', ''-j'', job, ''-L''];
          cmd = extend_if cmd ''-u'' (username r);
          cmd = extend_if cmd ''-p'' (password r);
          cmd = extend_if cmd ''-i'' (instance_name r);
          cmd = extend_if cmd ''-s'' (server r)
      in cmd)"

text \<open>The command line \<open>retrieve_log_via_autosys\<close> builds.\<close>

definition autosyslog_cmd :: "retriever \<Rightarrow> string \<Rightarrow> bool \<Rightarrow> string list" where
  "autosyslog_cmd r job is_stdout =
     (let cmd = [''autosyslog'', ''-j'', job, if is_stdout then ''-o'' else ''-e''];
          cmd = extend_if cmd ''-u'' (username r);
          cmd = extend_if cmd ''-p'' (password r);
          cmd = extend_if cmd ''-i'' (instance_name r);
          cmd = extend_if cmd ''-s'' (server r)
      in cmd)"

text \<open>
  The body of the method \<open>get_job_details\<close> after the command returned its report. The
  captured text is stripped before it is stored; \<open>.strip()\<close> on a group that took no
  part in the match (\<open>None\<close>) raises \<open>AttributeError\<close>.
\<close>

definition auth_parse_report :: "string \<Rightarrow> string \<Rightarrow> exn + job_details" where
  "auth_parse_report job report =
     (let d0 = \<lparr>job_name = job, status = None, last_run = None,
                 std_out_file = None, std_err_file = None\<rparr>;
          d1 = (case re_search STATUS_PATTERN report of
                  Some m \<Rightarrow> d0\<lparr>status := m 1\<rparr> | None \<Rightarrow> d0);
          d2 = (case re_search LAST_RUN_PATTERN report of
                  Some m \<Rightarrow> d1\<lparr>last_run := m 1\<rparr> | None \<Rightarrow> d1);
          d3 = (case re_search STD_OUT_FILE_PATTERN report of
                  Some m \<Rightarrow> if truthy (m 1) then d2\<lparr>std_out_file := map_option strip (m 1)\<rparr> else d2
                | None \<Rightarrow> d2);
          d4 = (case re_search STD_ERR_FILE_PATTERN report of
                  Some m \<Rightarrow> if truthy (m 1) then d3\<lparr>std_err_file := map_option strip (m 1)\<rparr> else d3
                | None \<Rightarrow> d3)
      in if \<not> truthy (std_out_file d4) \<or> \<not> truthy (std_err_file d4) then
           (case re_search JOB_DIR_PATTERN report of
              None \<Rightarrow> Inr d4
            | Some m \<Rightarrow>
                (case m 1 of
                   None \<Rightarrow> Inl AttributeError
                 | Some v \<Rightarrow>
                     (let log_dir = strip v;
                          d5 = (if \<not> truthy (std_out_file d4)
                                then d4\<lparr>std_out_file := Some (path_join log_dir (job @ ''.out''))\<rparr>
                                else d4);
                          d6 = (if \<not> truthy (std_err_file d5)
                                then d5\<lparr>std_err_file := Some (path_join log_dir (job @ ''.err''))\<rparr>
                                else d5)
                      in Inr d6)))
         else Inr d4)"

text \<open>
  The method \<open>get_job_details\<close>: the events, and the record or the exception that
  leaves the method (a \<open>CalledProcessError\<close> is raised again, any other exception is
  wrapped into a \<open>RuntimeError\<close>).
\<close>

definition auth_get_job_details ::
    "env \<Rightarrow> retriever \<Rightarrow> string \<Rightarrow> event list \<times> (exn + job_details)" where
  "auth_get_job_details w r job =
     (let cmd = autorep_cmd r job in
      case run_captured w cmd of
        Inl (CalledProcessError c rc out err) \<Rightarrow>
          ([Exec cmd,
            PrintExn ''Error retrieving job details: '' (CalledProcessError c rc out err),
            Print (''stderr: '' @ str_opt err)],
           Inl (CalledProcessError c rc out err))
      | Inl e \<Rightarrow>
          ([Exec cmd, PrintExn ''Unexpected error: '' e],
           Inl (RuntimeError ''Failed to retrieve job details: '' e))
      | Inr (report, _) \<Rightarrow>
          (case auth_parse_report job report of
             Inl e \<Rightarrow>
               ([Exec cmd, PrintExn ''Unexpected error: '' e],
                Inl (RuntimeError ''Failed to retrieve job details: '' e))
           | Inr d \<Rightarrow> ([Exec cmd], Inr d)))"

text \<open>
  \<open>retrieve_log_via_autosys\<close>: a \<open>CalledProcessError\<close> is reported and swallowed; any
  other exception leaves the method.
\<close>

definition retrieve_log_via_autosys ::
    "env \<Rightarrow> retriever \<Rightarrow> string \<Rightarrow> bool \<Rightarrow> event list \<times> exn option" where
  "retrieve_log_via_autosys w r job is_stdout =
     (let cmd = autosyslog_cmd r job is_stdout in
      case run_captured w cmd of
        Inr (out, _) \<Rightarrow> ([Exec cmd, Print out], None)
      | Inl (CalledProcessError c rc out err) \<Rightarrow>
          ([Exec cmd,
            Print (''Error running autosyslog command. Exit code: '' @ str_int rc),
            Print (''Error message: '' @ str_opt err)], None)
      | Inl e \<Rightarrow> ([Exec cmd], Some e))"

definition auth_stream_section ::
    "env \<Rightarrow> retriever \<Rightarrow> job_details \<Rightarrow> stream \<Rightarrow> event list" where
  "auth_stream_section w r d st =
     (case stream_path st d of
        None \<Rightarrow> [Print (newline # stream_upper st @ '' LOG: Not available'')]
      | Some path \<Rightarrow>
          if path = [] then [Print (newline # stream_upper st @ '' LOG: Not available'')]
          else
            [Print (newline # stream_upper st @ '' LOG ('' @ path @ ''):''),
             Print (replicate 80 CHR ''-'')] @
            (if path_exists w path then
               (case read_file w path of
                  Inr content \<Rightarrow> [Print content]
                | Inl msg \<Rightarrow>
                    [PrintExn (''Error accessing '' @ stream_lower st @ '' log: '') (OSError msg)])
             else
               Print (''Direct access to '' @ stream_lower st @
                      '' file failed. Attempting to retrieve via Autosys utilities...'') #
               (case retrieve_log_via_autosys w r (job_name d) (st = Stdout) of
                  (evs, None) \<Rightarrow> evs
                | (evs, Some e) \<Rightarrow>
                    evs @ [PrintExn (''Error accessing '' @ stream_lower st @ '' log: '') e])))"

definition auth_get_job_logs :: "env \<Rightarrow> retriever \<Rightarrow> job_details \<Rightarrow> event list" where
  "auth_get_job_logs w r d =
     report_header d @ auth_stream_section w r d Stdout @ auth_stream_section w r d Stderr"

text \<open>
  The namespace \<open>parser.parse_args()\<close> returns: every option is a string or \<open>None\<close>.
\<close>

record namespace =
  args_job_name :: "string option"
  args_username :: "string option"
  args_password :: "string option"
  args_instance :: "string option"
  args_server :: "string option"
  args_job_name_positional :: "string option"

text \<open>
  \<open>parse_arguments\<close> after \<open>parse_args\<close>: the positional job name stands in for a
  missing \<open>-j\<close>; without a job name \<open>parser.error\<close> ends the process with status 2.
\<close>

definition parse_arguments :: "namespace \<Rightarrow> event list \<times> (int + namespace)" where
  "parse_arguments ns =
     (let args = (if \<not> truthy (args_job_name ns) \<and> truthy (args_job_name_positional ns)
                  then ns\<lparr>args_job_name := args_job_name_positional ns\<rparr> else ns)
      in if \<not> truthy (args_job_name args)
         then ([ParserError ''Job name is required. Use -j/--job or provide as positional argument.''],
               Inl 2)
         else ([], Inr args))"

text \<open>
  The two prompts of \<open>main\<close>: the events, and the password and the instance that
  result.
\<close>

definition prompt_credentials ::
    "env \<Rightarrow> namespace \<Rightarrow> event list \<times> string option \<times> string option" where
  "prompt_credentials w args =
     (let user = args_username args;
          (ev1, pw) =
            (if truthy user \<and> \<not> truthy (args_password args)
             then ([Getpass (''Enter password for '' @ str_opt user @ '': '')],
                   Some (getpass_reply w (''Enter password for '' @ str_opt user @ '': '')))
             else ([], args_password args));
          (ev2, inst) =
            (if truthy user \<and> \<not> truthy (args_instance args)
             then ([Input ''Enter Autosys instance name: ''],
                   Some (input_reply w ''Enter Autosys instance name: ''))
             else ([], args_instance args))
      in (ev1 @ ev2, pw, inst))"

text \<open>
  \<open>main\<close> on the parsed namespace: the events and the exit status
  (\<open>sys.exit(main())\<close>). A job name \<open>None\<close> cannot pass \<open>parse_arguments\<close>; the
  branch is what the source would do with it (the command cannot be started with a
  \<open>None\<close> argument).
\<close>

definition auth_main :: "env \<Rightarrow> namespace \<Rightarrow> event list \<times> int" where
  "auth_main w ns =
     (case parse_arguments ns of
        (evs, Inl code) \<Rightarrow> (evs, code)
      | (evs, Inr args) \<Rightarrow>
          (let banner =
                 [Print (newline # replicate 20 CHR ''='' @ '' Autosys Log Retriever '' @
                         replicate 20 CHR ''=''),
                  Print (''Retrieving logs for job: '' @ str_opt (args_job_name args))];
               (prompts, pw, inst) = prompt_credentials w args;
               r = \<lparr>username = args_username args, password = pw,
                    instance_name = inst, server = args_server args\<rparr>
           in case args_job_name args of
                None \<Rightarrow>
                  (evs @ banner @ prompts @
                   [PrintExn ''Unexpected error: '' TypeError,
                    PrintExn ''Error: '' (RuntimeError ''Failed to retrieve job details: '' TypeError)],
                   1)
              | Some job \<Rightarrow>
                  (case auth_get_job_details w r job of
                     (evd, Inl e) \<Rightarrow>
                       (evs @ banner @ prompts @ evd @ [PrintExn ''Error: '' e], 1)
                   | (evd, Inr d) \<Rightarrow>
                       (evs @ banner @ prompts @ evd @ auth_get_job_logs w r d, 0))))"

section \<open>autosys-system-logs.py\<close>

text \<open>
  \<open>run_command\<close>: the command line runs through the shell; its stripped standard
  output is returned, or \<open>None\<close> after the error is reported on standard error.
\<close>

definition run_command :: "env \<Rightarrow> string \<Rightarrow> event list \<times> string option" where
  "run_command w command =
     (case shell w command of
        (rc, out, err) \<Rightarrow>
          if rc = 0 then ([Shell command], Some (strip out))
          else ([Shell command,
                 PrintErr (''Error running command: '' @ command),
                 PrintErr (''Error message: '' @ strip err)], None))"

record logs_data =
  job_info :: "string option"
  system_logs :: "string option"
  run_details :: "string option"
  status_history :: "string option"

text \<open>\<open>if run_number:\<close> holds for an integer other than 0.\<close>

fun truthy_int :: "int option \<Rightarrow> bool" where
  "truthy_int None = False"
| "truthy_int (Some n) = (n \<noteq> 0)"

fun str_int_opt :: "int option \<Rightarrow> string" where
  "str_int_opt None = ''None''"
| "str_int_opt (Some n) = str_int n"

definition get_system_logs :: "env \<Rightarrow> string \<Rightarrow> int option \<Rightarrow> event list \<times> logs_data" where
  "get_system_logs w job run_number =
     (let (ev1, info) = run_command w (''autorep -j '' @ job @ '' -q'');
          (ev2, logs) =
            (if truthy_int run_number
             then run_command w (''autosyslog -j '' @ job @ '' -r '' @ str_int_opt run_number)
             else run_command w (''autosyslog -j '' @ job));
          (ev3, details) =
            (if truthy_int run_number
             then run_command w (''autorep -j '' @ job @ '' -r '' @ str_int_opt run_number)
             else run_command w (''autorep -j '' @ job @ '' -l''));
          (ev4, history) = run_command w (''autorep -j '' @ job @ '' -s'')
      in (ev1 @ ev2 @ ev3 @ ev4,
          \<lparr>job_info = info, system_logs = logs, run_details = details,
           status_history = history\<rparr>))"

definition attributes :: "string list" where
  "attributes =
     [''machine'', ''box_name'', ''command'', ''condition'',
      ''date_conditions'', ''days_of_week'', ''start_times'',
      ''job_type'', ''priority'', ''max_run_alarm'', ''alarm_if_fail'']"

text \<open>\<open>{attr}:\s*(.*?)(\s|$)\<close>.\<close>

definition attr_pattern :: "string \<Rightarrow> regex" where
  "attr_pattern attr =
     Seq (Lit (attr @ '':'')) (Seq (Star isspace)
       (Seq (Group 1 (LazyStar anychar)) (Group 2 (Alt (One isspace) Eos))))"

text \<open>
  The loop of \<open>extract_job_metadata\<close> over the attributes. The dictionary is an
  association list in insertion order; a value is what \<open>group(1)\<close> returned.
\<close>

fun metadata_loop ::
    "string list \<Rightarrow> string \<Rightarrow> (string \<times> string option) list \<Rightarrow> (string \<times> string option) list" where
  "metadata_loop [] info metadata = metadata"
| "metadata_loop (attr # attrs) info metadata =
     (case re_search (attr_pattern attr) info of
        Some m \<Rightarrow> metadata_loop attrs info (AList.update attr (m 1) metadata)
      | None \<Rightarrow> metadata_loop attrs info metadata)"

definition extract_job_metadata :: "string option \<Rightarrow> (string \<times> string option) list" where
  "extract_job_metadata info =
     (case info of
        None \<Rightarrow> []
      | Some text \<Rightarrow> if text = [] then [] else metadata_loop attributes text [])"

fun json_str :: "string option \<Rightarrow> json" where
  "json_str None = JNull"
| "json_str (Some s) = JString s"

fun json_int :: "int option \<Rightarrow> json" where
  "json_int None = JNull"
| "json_int (Some n) = JInt n"

text \<open>The command line options of the script: \<open>--job\<close>, \<open>--run\<close>, \<open>--format\<close>.\<close>

record system_args =
  sys_job :: string
  sys_run :: "int option"
  sys_format :: string

definition system_report ::
    "env \<Rightarrow> system_args \<Rightarrow> (string \<times> string option) list \<Rightarrow> logs_data \<Rightarrow> json" where
  "system_report w args metadata ld =
     JObject
       [(''job_name'', JString (sys_job args)),
        (''run_number'', json_int (sys_run args)),
        (''timestamp'', JString (now_isoformat w)),
        (''metadata'', JObject (map (\<lambda>(k, v). (k, json_str v)) metadata)),
        (''system_logs'', json_str (system_logs ld)),
        (''run_details'', json_str (run_details ld)),
        (''status_history'', json_str (status_history ld))]"



section \<open>autosys-minimal-system-logs.py\<close>

text \<open>As \<open>run_command\<close> above, but the error is reported on standard output.\<close>

definition minimal_run_command :: "env \<Rightarrow> string \<Rightarrow> event list \<times> string option" where
  "minimal_run_command w command =
     (case shell w command of
        (rc, out, err) \<Rightarrow>
          if rc = 0 then ([Shell command], Some (strip out))
          else ([Shell command,
                 Print (''Error running command: '' @ command),
                 Print (''Error message: '' @ strip err)], None))"

definition minimal_get_system_logs :: "env \<Rightarrow> string \<Rightarrow> int option \<Rightarrow> event list \<times> json" where
  "minimal_get_system_logs w job run_number =
     (let command =
            (if truthy_int run_number
             then ''autosyslog -j '' @ job @ '' -r '' @ str_int_opt run_number
             else ''autosyslog -j '' @ job);
          (evs, logs) = minimal_run_command w command
      in (evs,
          JObject
            [(''job_name'', JString job),
             (''run_number'', json_int run_number),
             (''system_logs'', json_str logs)]))"



section \<open>Notions for the statements\<close>

text \<open>
  The text that follows the first occurrence of a label, and the first run of
  characters without whitespace in a text.
\<close>

fun after_label :: "string \<Rightarrow> string \<Rightarrow> string option" where
  "after_label l [] = (if l = [] then Some [] else None)"
| "after_label l (c # cs) =
     (if prefix l (c # cs) then Some (drop (length l) (c # cs)) else after_label l cs)"

definition first_token :: "string \<Rightarrow> string" where
  "first_token s = takeWhile (\<lambda>c. \<not> isspace c) (dropWhile isspace s)"

text \<open>
  The token that comes next after the first occurrence of a label, on whatever line it
  stands: the whitespace skipped before it may contain line breaks. \<open>None\<close> when the
  label does not occur, the empty text when nothing but whitespace follows the label
  up to the end of the text. This is not the specification's value of a label (see
  \<open>line_value\<close>); it is what the labelled patterns turn out to capture.
\<close>

definition next_token :: "string \<Rightarrow> string \<Rightarrow> string option" where
  "next_token l s = map_option first_token (after_label l s)"

text \<open>What is left of the label's own line after the label.\<close>

definition rest_of_line :: "string \<Rightarrow> string \<Rightarrow> string option" where
  "rest_of_line l s = map_option (takeWhile (\<lambda>c. c \<noteq> newline)) (after_label l s)"

text \<open>
  The value a report gives for a label, as the specification reads a report: what
  stands after the label on the label's own line, without the whitespace around it.
  \<open>None\<close> when the label does not occur, the empty text when the rest of the label's
  line is blank.
\<close>

definition line_value :: "string \<Rightarrow> string \<Rightarrow> string option" where
  "line_value l s = map_option first_token (rest_of_line l s)"

text \<open>
  A report gives no value at all for a label: the label does not occur, or nothing but
  whitespace follows it up to the end of the report.
\<close>

definition no_value :: "string \<Rightarrow> string \<Rightarrow> bool" where
  "no_value l s = (case after_label l s of None \<Rightarrow> True | Some rest \<Rightarrow> list_all isspace rest)"

text \<open>
  The value \<open>v\<close> stands in \<open>s\<close> after an occurrence of the label \<open>l\<close>, with exactly
  \<open>ws\<close> between them. And: a text made of date characters, whitespace and time
  characters, each part not empty.
\<close>

definition stands_after :: "string \<Rightarrow> string \<Rightarrow> string \<Rightarrow> string \<Rightarrow> bool" where
  "stands_after l ws v s \<longleftrightarrow> (\<exists>pre post. s = pre @ l @ ws @ v @ post)"

definition is_date_time :: "string \<Rightarrow> bool" where
  "is_date_time y \<longleftrightarrow>
     (\<exists>d w t. y = d @ w @ t \<and> d \<noteq> [] \<and> (\<forall>c \<in> set d. date_char c) \<and>
        w \<noteq> [] \<and> (\<forall>c \<in> set w. isspace c) \<and> t \<noteq> [] \<and> (\<forall>c \<in> set t. time_char c))"

text \<open>
  The text a command line run through the shell contributes to a report: its stripped
  standard output when it exits with status 0, nothing otherwise.
\<close>

definition command_text :: "env \<Rightarrow> string \<Rightarrow> string option" where
  "command_text w c =
     (if fst (shell w c) = 0 then Some (strip (fst (snd (shell w c)))) else None)"

text \<open>\<open>m.group(1) if m else None\<close> for \<open>m = re.search(r, s)\<close>.\<close>

definition captured :: "regex \<Rightarrow> string \<Rightarrow> string option" where
  "captured r s = (case re_search r s of None \<Rightarrow> None | Some m \<Rightarrow> m 1)"

text \<open>The texts a pattern describes, whatever the order in which the matcher tries them.\<close>

fun matches :: "regex \<Rightarrow> string \<Rightarrow> bool" where
  "matches (Lit l) u = (u = l)"
| "matches (One p) u = (\<exists>c. u = [c] \<and> p c)"
| "matches (Star p) u = (\<forall>c \<in> set u. p c)"
| "matches (Plus p) u = (u \<noteq> [] \<and> (\<forall>c \<in> set u. p c))"
| "matches (LazyStar p) u = (\<forall>c \<in> set u. p c)"
| "matches (Seq a b) u = (\<exists>v w. u = v @ w \<and> matches a v \<and> matches b w)"
| "matches (Alt a b) u = (matches a u \<or> matches b u)"
| "matches (Group n a) u = matches a u"
| "matches Eos u = (u = [])"

text \<open>
  The closed form of a log path: the token after the label when it is not empty,
  otherwise the path derived from the token after \<open>job_dir:\<close>, if that label occurs.
\<close>

definition resolved_path :: "string \<Rightarrow> string \<Rightarrow> string \<Rightarrow> string \<Rightarrow> string option" where
  "resolved_path label ext job report =
     (case next_token label report of
        Some (c # cs) \<Rightarrow> Some (c # cs)
      | _ \<Rightarrow> map_option (\<lambda>d. path_join d (job @ ext)) (next_token ''job_dir:'' report))"

text \<open>A text without whitespace at either end.\<close>

definition is_stripped :: "string \<Rightarrow> bool" where
  "is_stripped s \<longleftrightarrow> s = [] \<or> (\<not> isspace (hd s) \<and> \<not> isspace (last s))"

text \<open>Kinds of events, and the value of a key in a JSON object.\<close>

fun is_exec :: "event \<Rightarrow> bool" where
  "is_exec (Exec cmd) = True"
| "is_exec e = False"

fun is_getpass :: "event \<Rightarrow> bool" where
  "is_getpass (Getpass p) = True"
| "is_getpass e = False"

fun is_input :: "event \<Rightarrow> bool" where
  "is_input (Input p) = True"
| "is_input e = False"

fun json_field :: "string \<Rightarrow> json \<Rightarrow> json option" where
  "json_field k (JObject kvs) = map_of kvs k"
| "json_field k j = None"

text \<open>A JSON value that is \<open>null\<close> or a text without whitespace at either end.\<close>

fun null_or_stripped :: "json \<Rightarrow> bool" where
  "null_or_stripped JNull = True"
| "null_or_stripped (JString s) = is_stripped s"
| "null_or_stripped j = False"

text \<open>Events none of which is a prompt.\<close>

definition no_prompt :: "event list \<Rightarrow> bool" where
  "no_prompt evs \<longleftrightarrow> list_all (\<lambda>e. \<not> is_getpass e \<and> \<not> is_input e) evs"

text \<open>
  What the log presenter prints for the standard error stream when its file exists:
  the heading, the rule, and the content of the file or the error of reading it.
\<close>

definition stderr_block :: "env \<Rightarrow> string \<Rightarrow> event list" where
  "stderr_block w path =
     [Print (newline # ''STDERR LOG ('' @ path @ ''):''),
      Print (replicate 80 CHR ''-''),
      (case read_file w path of
         Inr content \<Rightarrow> Print content
       | Inl msg \<Rightarrow> PrintExn ''Error accessing stderr log: '' (OSError msg))]"

text \<open>
  A sample environment, for instances of the theorems below: every external command
  ends as \<open>res\<close> says, the paths \<open>ex\<close> accepts exist and every file reads as
  \<open>log text\<close>.
\<close>

definition sample_env :: "proc_result \<Rightarrow> (string \<Rightarrow> bool) \<Rightarrow> env" where
  "sample_env res ex =
     \<lparr>subprocess = (\<lambda>cmd. res),
      shell = (\<lambda>command. case res of
                 Completed rc out err \<Rightarrow> (rc, out, err)
               | LaunchError msg \<Rightarrow> (127, [], msg)),
      path_exists = ex,
      read_file = (\<lambda>path. Inr ''log text''),
      getpass_reply = (\<lambda>prompt. ''secret''),
      input_reply = (\<lambda>prompt. ''ACE''),
      now_isoformat = ''2025-04-09T12:00:00''\<rparr>"

text \<open>
  Two more sample environments. In \<open>credential_env\<close> a command line with the flag
  \<open>-u\<close> is denied (exit status 1) and any other prints a report. In \<open>mixed_env\<close>
  the command line \<open>autosyslog -j J\<close> fails and any other prints a padded line.
\<close>

definition credential_env :: env where
  "credential_env =
     \<lparr>subprocess = (\<lambda>cmd. if ''-u'' \<in> set cmd then Completed 1 [] ''denied''
                             else Completed 0 ''Status/Event: SUCCESS'' []),
      shell = (\<lambda>command. (0, [], [])),
      path_exists = (\<lambda>path. False),
      read_file = (\<lambda>path. Inr ''log text''),
      getpass_reply = (\<lambda>prompt. ''secret''),
      input_reply = (\<lambda>prompt. ''ACE''),
      now_isoformat = ''2025-04-09T12:00:00''\<rparr>"

definition mixed_env :: env where
  "mixed_env =
     \<lparr>subprocess = (\<lambda>cmd. Completed 0 [] []),
      shell = (\<lambda>command. if command = ''autosyslog -j J'' then (1, [], ''no log'')
                          else (0, '' ok \<newline>'', [])),
      path_exists = (\<lambda>path. False),
      read_file = (\<lambda>path. Inr ''log text''),
      getpass_reply = (\<lambda>prompt. ''secret''),
      input_reply = (\<lambda>prompt. ''ACE''),
      now_isoformat = ''2025-04-09T12:00:00''\<rparr>"

section \<open>Properties of the matcher\<close>

lemma isspace_newline: "isspace newline"
  by (simp add: isspace_def newline_def)

lemma anychar_nonspace: "\<not> isspace c \<Longrightarrow> anychar c"
  using isspace_newline by (auto simp: anychar_def)

lemma star_greedy_first:
  "k (dropWhile p s) = Some r \<Longrightarrow> star_greedy p k s = Some r"
  by (induction s) auto

lemma star_greedy_sound:
  "star_greedy p k s = Some r \<Longrightarrow>
     \<exists>n. n \<le> length s \<and> (\<forall>x \<in> set (take n s). p x) \<and> k (drop n s) = Some r"
proof (induction s)
  case Nil
  then show ?case by simp
next
  case (Cons c cs)
  show ?case
  proof (cases "p c \<and> star_greedy p k cs \<noteq> None")
    case True
    with Cons.prems have "star_greedy p k cs = Some r" by auto
    from Cons.IH[OF this] obtain n where
      n: "n \<le> length cs" "\<forall>x \<in> set (take n cs). p x" "k (drop n cs) = Some r" by blast
    with True show ?thesis by (intro exI[of _ "Suc n"]) simp
  next
    case False
    with Cons.prems have "k (c # cs) = Some r" by (auto split: if_splits option.splits)
    then show ?thesis by (intro exI[of _ 0]) simp
  qed
qed

lemma star_lazy_first:
  "\<forall>i < length a. k (drop i (a @ b)) = None \<Longrightarrow> \<forall>x \<in> set a. p x \<Longrightarrow> k b = Some r \<Longrightarrow>
     star_lazy p k (a @ b) = Some r"
proof (induction a)
  case Nil
  then show ?case by (cases b) simp_all
next
  case (Cons c cs)
  from Cons.prems(1) have here: "k (c # cs @ b) = None" by force
  have "\<forall>i < length cs. k (drop i (cs @ b)) = None"
  proof (intro allI impI)
    fix i assume "i < length cs"
    then have "Suc i < length (c # cs)" by simp
    with Cons.prems(1) have "k (drop (Suc i) ((c # cs) @ b)) = None" by blast
    then show "k (drop i (cs @ b)) = None" by simp
  qed
  with Cons have "star_lazy p k (cs @ b) = Some r" by simp
  with here Cons.prems(2) show ?case by simp
qed

lemma alt_tail:
  "rmatch (Alt (Plus isspace) Eos) (\<lambda>g s'. Some g) g s =
     (if s = [] \<or> isspace (hd s) then Some g else None)"
proof (cases s)
  case Nil
  then show ?thesis by simp
next
  case (Cons c cs)
  show ?thesis
  proof (cases "isspace c")
    case True
    with Cons show ?thesis by (simp add: star_greedy_first)
  next
    case False
    then have "c \<noteq> newline" using isspace_newline by auto
    with False Cons show ?thesis by simp
  qed
qed

lemma one_tail_eq:
  "rmatch (Group m (Alt (One isspace) Eos)) (\<lambda>g s'. Some g) g s =
     (if s = [] \<or> isspace (hd s) then Some (g(m := Some (take 1 s))) else None)"
proof (cases s)
  case Nil
  then show ?thesis by simp
next
  case (Cons c cs)
  show ?thesis
  proof (cases "isspace c")
    case True
    with Cons show ?thesis by simp
  next
    case False
    then have "c \<noteq> newline" using isspace_newline by auto
    with False Cons show ?thesis by simp
  qed
qed

lemma token_split_none:
  assumes "i < length (takeWhile (\<lambda>c. \<not> isspace c) u)"
  shows "drop i u \<noteq> [] \<and> \<not> isspace (hd (drop i u))"
proof -
  let ?a = "takeWhile (\<lambda>c. \<not> isspace c) u"
  have u: "u = ?a @ dropWhile (\<lambda>c. \<not> isspace c) u" by simp
  from assms have "i < length u"
    by (metis length_takeWhile_le less_le_trans)
  then have ne: "drop i u \<noteq> []" by simp
  have "hd (drop i u) = u ! i" using \<open>i < length u\<close> by (simp add: hd_drop_conv_nth)
  also have "\<dots> = ?a ! i" using assms by (simp add: takeWhile_nth)
  finally have "hd (drop i u) \<in> set ?a" using assms by simp
  then have "\<not> isspace (hd (drop i u))" by (auto dest: set_takeWhileD)
  with ne show ?thesis by simp
qed

lemma token_rest:
  "dropWhile (\<lambda>c. \<not> isspace c) u = [] \<or> isspace (hd (dropWhile (\<lambda>c. \<not> isspace c) u))"
  using hd_dropWhile[of "\<lambda>c. \<not> isspace c" u] by auto

lemma take_token:
  "take (length u - length (dropWhile P u)) u = takeWhile P u"
proof -
  have "length u - length (dropWhile P u) = length (takeWhile P u)"
    by (metis add_diff_cancel_right' length_append takeWhile_dropWhile_id)
  then show ?thesis by (metis takeWhile_eq_take)
qed

lemma lazy_capture_tail:
  assumes tail: "\<And>g t. rmatch T (\<lambda>g s'. Some g) g t =
                    (if t = [] \<or> isspace (hd t) then Some (h g t) else None)"
  shows "rmatch (Seq (Group n (LazyStar anychar)) T) (\<lambda>g s'. Some g) g u
     = Some (h (g(n := Some (takeWhile (\<lambda>c. \<not> isspace c) u))) (dropWhile (\<lambda>c. \<not> isspace c) u))"
proof -
  let ?P = "\<lambda>c. \<not> isspace c"
  let ?a = "takeWhile ?P u" and ?b = "dropWhile ?P u"
  let ?k = "\<lambda>s'. rmatch T (\<lambda>g s''. Some g) (g(n := Some (take (length u - length s') u))) s'"
  have none: "\<forall>i < length ?a. ?k (drop i (?a @ ?b)) = None"
    using token_split_none[of _ u] by (simp add: tail)
  have cls: "\<forall>x \<in> set ?a. anychar x"
    by (auto dest: set_takeWhileD intro: anychar_nonspace)
  have last: "?k ?b = Some (h (g(n := Some ?a)) ?b)"
    using token_rest[of u] by (simp only: tail take_token if_True)
  have "star_lazy anychar ?k (?a @ ?b) = Some (h (g(n := Some ?a)) ?b)"
    by (rule star_lazy_first[OF none cls last])
  then show ?thesis by simp
qed

lemma lazy_capture:
  "rmatch (Seq (Group n (LazyStar anychar)) (Alt (Plus isspace) Eos)) (\<lambda>g s'. Some g) g u
     = Some (g(n := Some (takeWhile (\<lambda>c. \<not> isspace c) u)))"
  by (rule lazy_capture_tail[where h = "\<lambda>g t. g", OF alt_tail])

lemma labelled_match_here:
  "match_here (labelled_pattern l) s =
     (if prefix l s then Some ((\<lambda>n. None)(1 := Some (first_token (drop (length l) s)))) else None)"
proof -
  have "rmatch (Seq (Star isspace) (Seq (Group 1 (LazyStar anychar)) (Alt (Plus isspace) Eos)))
          (\<lambda>g s'. Some g) g t = Some (g(1 := Some (first_token t)))" for g t
    unfolding rmatch.simps(6)[of "Star isspace"] rmatch.simps(3) first_token_def
    by (rule star_greedy_first) (rule lazy_capture)
  then show ?thesis
    unfolding match_here_def labelled_pattern_def rmatch.simps(6)[of "Lit l"] rmatch.simps(1)
    by simp
qed

lemma labelled_search:
  "re_search (labelled_pattern l) s =
     map_option (\<lambda>rest. (\<lambda>n. None)(1 := Some (first_token rest))) (after_label l s)"
  by (induction s) (auto simp: labelled_match_here)




lemma star_lazy_sound:
  "star_lazy p k s = Some r \<Longrightarrow>
     \<exists>n. n \<le> length s \<and> (\<forall>x \<in> set (take n s). p x) \<and> k (drop n s) = Some r"
proof (induction s)
  case Nil
  then show ?case by simp
next
  case (Cons c cs)
  show ?case
  proof (cases "k (c # cs)")
    case (Some a)
    with Cons.prems have "k (c # cs) = Some r" by simp
    then show ?thesis by (intro exI[of _ 0]) simp
  next
    case None
    with Cons.prems have pc: "p c" and "star_lazy p k cs = Some r"
      by (auto split: if_splits)
    from Cons.IH[OF this(2)] obtain n where
      n: "n \<le> length cs" "\<forall>x \<in> set (take n cs). p x" "k (drop n cs) = Some r" by blast
    with pc show ?thesis by (intro exI[of _ "Suc n"]) simp
  qed
qed

lemma rmatch_sound:
  "rmatch r k g s = Some x \<Longrightarrow>
     \<exists>u s' g'. s = u @ s' \<and> matches r u \<and> k g' s' = Some x"
proof (induction r arbitrary: k g s)
  case (Lit l)
  then have "prefix l s" and "k g (drop (length l) s) = Some x"
    by (auto split: if_splits)
  moreover from \<open>prefix l s\<close> have "s = l @ drop (length l) s"
    by (auto simp: prefix_def)
  ultimately show ?case by (intro exI[of _ l] exI[of _ "drop (length l) s"] exI[of _ g]) simp
next
  case (One p)
  then obtain c cs where "s = c # cs" "p c" "k g cs = Some x"
    by (auto split: list.splits if_splits)
  then show ?case by (intro exI[of _ "[c]"] exI[of _ cs] exI[of _ g]) simp
next
  case (Star p)
  then have "star_greedy p (k g) s = Some x" by simp
  from star_greedy_sound[OF this] obtain n where
    "n \<le> length s" "\<forall>x \<in> set (take n s). p x" "k g (drop n s) = Some x" by blast
  then show ?case by (intro exI[of _ "take n s"] exI[of _ "drop n s"] exI[of _ g]) simp
next
  case (Plus p)
  then obtain c cs where s: "s = c # cs" "p c" and "star_greedy p (k g) cs = Some x"
    by (auto split: list.splits if_splits)
  from star_greedy_sound[OF this(3)] obtain n where
    "n \<le> length cs" "\<forall>x \<in> set (take n cs). p x" "k g (drop n cs) = Some x" by blast
  with s show ?case
    by (intro exI[of _ "c # take n cs"] exI[of _ "drop n cs"] exI[of _ g]) simp
next
  case (LazyStar p)
  then have "star_lazy p (k g) s = Some x" by simp
  from star_lazy_sound[OF this] obtain n where
    "n \<le> length s" "\<forall>x \<in> set (take n s). p x" "k g (drop n s) = Some x" by blast
  then show ?case by (intro exI[of _ "take n s"] exI[of _ "drop n s"] exI[of _ g]) simp
next
  case (Seq a b)
  from Seq.prems have "rmatch a (rmatch b k) g s = Some x" by simp
  from Seq.IH(1)[OF this] obtain u1 s1 g1 where
    1: "s = u1 @ s1" "matches a u1" "rmatch b k g1 s1 = Some x" by blast
  from Seq.IH(2)[OF 1(3)] obtain u2 s2 g2 where
    2: "s1 = u2 @ s2" "matches b u2" "k g2 s2 = Some x" by blast
  from 1 2 show ?case
    by (intro exI[of _ "u1 @ u2"] exI[of _ s2] exI[of _ g2]) auto
next
  case (Alt a b)
  then have "rmatch a k g s = Some x \<or> rmatch b k g s = Some x"
    by (auto split: option.splits)
  then show ?case using Alt.IH by (metis matches.simps(7))
next
  case (Group n a)
  from Group.prems have
    "rmatch a (\<lambda>g' s'. k (g'(n := Some (take (length s - length s') s))) s') g s = Some x"
    by simp
  from Group.IH[OF this] show ?case by auto
next
  case Eos
  then have "k g s = Some x" by (auto split: if_splits)
  then show ?case by (intro exI[of _ "[]"] exI[of _ s] exI[of _ g]) simp
qed

lemma re_search_sound:
  "re_search r s = Some m \<Longrightarrow> \<exists>t. suffix t s \<and> match_here r t = Some m"
proof (induction s)
  case Nil
  then show ?case by auto
next
  case (Cons c cs)
  show ?case
  proof (cases "match_here r (c # cs)")
    case None
    with Cons.prems have "re_search r cs = Some m" by simp
    from Cons.IH[OF this] show ?thesis by (auto simp: suffix_Cons)
  next
    case (Some a)
    with Cons.prems show ?thesis by auto
  qed
qed





lemma seq_assoc_here: "match_here (Seq a (Seq b c)) s = match_here (Seq (Seq a b) c) s"
proof -
  have "rmatch (Seq b c) k = rmatch b (rmatch c k)" for k :: "groups \<Rightarrow> string \<Rightarrow> groups option"
    by (intro ext) simp
  then show ?thesis by (simp add: match_here_def)
qed

lemma seq_assoc_search: "re_search (Seq a (Seq b c)) s = re_search (Seq (Seq a b) c) s"
  by (induction s) (simp_all add: seq_assoc_here cong: option.case_cong)



lemma attr_match_here:
  "match_here (attr_pattern a) s =
     (if prefix (a @ '':'') s
      then Some ((\<lambda>n. None)
             (1 := Some (first_token (drop (length (a @ '':'')) s)),
              2 := Some (take 1 (dropWhile (\<lambda>c. \<not> isspace c)
                     (dropWhile isspace (drop (length (a @ '':'')) s))))))
      else None)"
proof -
  have "rmatch (Seq (Star isspace)
           (Seq (Group 1 (LazyStar anychar)) (Group 2 (Alt (One isspace) Eos))))
          (\<lambda>g s'. Some g) g t =
        Some (g(1 := Some (first_token t),
                2 := Some (take 1 (dropWhile (\<lambda>c. \<not> isspace c) (dropWhile isspace t)))))" for g t
    unfolding rmatch.simps(6)[of "Star isspace"] rmatch.simps(3) first_token_def
    by (rule star_greedy_first) (rule lazy_capture_tail[OF one_tail_eq])
  then show ?thesis
    unfolding match_here_def attr_pattern_def rmatch.simps(6)[of "Lit (a @ '':'')"] rmatch.simps(1)
    by simp
qed

lemma attr_search:
  "re_search (attr_pattern a) s =
     map_option (\<lambda>rest. (\<lambda>n. None)
        (1 := Some (first_token rest),
         2 := Some (take 1 (dropWhile (\<lambda>c. \<not> isspace c) (dropWhile isspace rest)))))
       (after_label (a @ '':'') s)"
  by (induction s) (auto simp: attr_match_here simp del: fun_upd_apply)



section \<open>What the extractors compute\<close>

lemma first_token_nospace: "c \<in> set (first_token t) \<Longrightarrow> \<not> isspace c"
  by (auto simp: first_token_def dest: set_takeWhileD)

lemma strip_nospace:
  assumes "\<forall>c \<in> set v. \<not> isspace c"
  shows "strip v = v"
proof -
  have "dropWhile isspace u = u" if "\<forall>c \<in> set u. \<not> isspace c" for u
    using that by (cases u) simp_all
  from this[of v] this[of "rev v"] assms show ?thesis by (simp add: strip_def)
qed

lemma strip_first_token: "strip (first_token t) = first_token t"
  by (rule strip_nospace) (auto dest: first_token_nospace)

lemma search_labelled_cases:
  "re_search (labelled_pattern l) s =
     (case next_token l s of None \<Rightarrow> None | Some v \<Rightarrow> Some ((\<lambda>n. None)(1 := Some v)))"
  by (cases "after_label l s") (simp_all add: labelled_search next_token_def)

lemma next_token_strip: "next_token l s = Some v \<Longrightarrow> strip v = v"
  by (auto simp: next_token_def strip_first_token)

lemma case_status_update:
  "(case x of None \<Rightarrow> d | Some m \<Rightarrow> d\<lparr>status := f m\<rparr>) =
     d\<lparr>status := (case x of None \<Rightarrow> status d | Some m \<Rightarrow> f m)\<rparr>"
  by (cases x) simp_all

lemma case_last_run_update:
  "(case x of None \<Rightarrow> d | Some m \<Rightarrow> d\<lparr>last_run := f m\<rparr>) =
     d\<lparr>last_run := (case x of None \<Rightarrow> last_run d | Some m \<Rightarrow> f m)\<rparr>"
  by (cases x) simp_all

lemma logs_parse_report_eq:
  "logs_parse_report job s =
     Inr \<lparr>job_name = job,
          status = captured logs_status_pattern s,
          last_run = captured logs_last_run_pattern s,
          std_out_file = resolved_path ''std_out_file:'' ''.out'' job s,
          std_err_file = resolved_path ''std_err_file:'' ''.err'' job s\<rparr>"
proof -
  obtain ov where ov: "next_token ''std_out_file:'' s = ov" by simp
  obtain ev where ev: "next_token ''std_err_file:'' s = ev" by simp
  obtain jv where jv: "next_token ''job_dir:'' s = jv" by simp
  show ?thesis
    unfolding logs_parse_report_def STD_OUT_FILE_PATTERN_def STD_ERR_FILE_PATTERN_def
      JOB_DIR_PATTERN_def search_labelled_cases resolved_path_def captured_def ov ev jv
      case_status_update case_last_run_update
    by (cases ov; cases ev; cases jv; simp add: Let_def split: list.split cong: option.case_cong)
qed


lemma auth_parse_report_eq:
  "auth_parse_report job s =
     Inr \<lparr>job_name = job,
          status = captured STATUS_PATTERN s,
          last_run = captured LAST_RUN_PATTERN s,
          std_out_file = resolved_path ''std_out_file:'' ''.out'' job s,
          std_err_file = resolved_path ''std_err_file:'' ''.err'' job s\<rparr>"
proof -
  obtain ov where ov: "next_token ''std_out_file:'' s = ov" by simp
  obtain ev where ev: "next_token ''std_err_file:'' s = ev" by simp
  obtain jv where jv: "next_token ''job_dir:'' s = jv" by simp
  have [simp]: "strip v = v" if "ov = Some v \<or> ev = Some v \<or> jv = Some v" for v
    using that ov ev jv by (auto dest: next_token_strip)
  show ?thesis
    unfolding auth_parse_report_def STD_OUT_FILE_PATTERN_def STD_ERR_FILE_PATTERN_def
      JOB_DIR_PATTERN_def search_labelled_cases resolved_path_def captured_def ov ev jv
      case_status_update case_last_run_update
    by (cases ov; cases ev; cases jv; simp add: Let_def split: list.split cong: option.case_cong)
qed

lemma run_captured_ok:
  "subprocess w cmd = Completed 0 out err \<Longrightarrow> run_captured w cmd = Inr (out, err)"
  by (simp add: run_captured_def)


lemma logs_get_job_details_ok:
  "subprocess w [''autorep'', ''-j'', job, ''-L''] = Completed 0 report err \<Longrightarrow>
     logs_get_job_details w job =
       ([Exec [''autorep'', ''-j'', job, ''-L'']],
        Inr \<lparr>job_name = job,
          status = captured logs_status_pattern report,
          last_run = captured logs_last_run_pattern report,
          std_out_file = resolved_path ''std_out_file:'' ''.out'' job report,
          std_err_file = resolved_path ''std_err_file:'' ''.err'' job report\<rparr>)"
  by (simp add: logs_get_job_details_def run_captured_ok logs_parse_report_eq)






lemma last_run_demo:
  "captured logs_last_run_pattern ''Last Run: 04/09/2025 12:30:00'' = Some ''04/09/2025 12:30:00''"
  by (simp add: captured_def logs_last_run_pattern_def match_here_def isdigit_def isspace_def
      date_char_def time_char_def)





lemma empty_demo_fields:
  "captured logs_status_pattern ''Status/Event: SUCCESS\<newline>job_dir:\<newline>'' = Some ''SUCCESS''"
  "captured STATUS_PATTERN ''Status/Event: SUCCESS\<newline>job_dir:\<newline>'' = Some ''SUCCESS''"
  "captured logs_last_run_pattern ''Status/Event: SUCCESS\<newline>job_dir:\<newline>'' = None"
  "captured LAST_RUN_PATTERN ''Status/Event: SUCCESS\<newline>job_dir:\<newline>'' = None"
  by (simp_all add: captured_def logs_status_pattern_def STATUS_PATTERN_def
      logs_last_run_pattern_def LAST_RUN_PATTERN_def match_here_def
      isword_def isdigit_def isspace_def)

lemma empty_demo_labels:
  "next_token ''job_dir:'' ''Status/Event: SUCCESS\<newline>job_dir:\<newline>'' = Some []"
  "next_token ''std_out_file:'' ''Status/Event: SUCCESS\<newline>job_dir:\<newline>'' = None"
  "next_token ''std_err_file:'' ''Status/Event: SUCCESS\<newline>job_dir:\<newline>'' = None"
  by (simp_all add: next_token_def first_token_def isspace_def)

lemma metadata_loop_step:
  "metadata_loop (attr # attrs) info md =
     (case next_token (attr @ '':'') info of
        Some v \<Rightarrow> metadata_loop attrs info (AList.update attr (Some v) md)
      | None \<Rightarrow> metadata_loop attrs info md)"
  by (cases "after_label (attr @ '':'') info") (simp_all add: attr_search next_token_def)

lemma empty_demo_metadata:
  "extract_job_metadata (Some ''command: ls\<newline>machine:'') =
     [(''machine'', Some []), (''command'', Some ''ls'')]"
  by (simp add: extract_job_metadata_def attributes_def metadata_loop_step next_token_def
      first_token_def isspace_def del: metadata_loop.simps(2))

section \<open>The summarizers\<close>

lemma strip_is_stripped: "is_stripped (strip s)"
proof (cases "strip s = []")
  case True
  then show ?thesis by (simp add: is_stripped_def)
next
  case False
  let ?t = "dropWhile isspace s"
  let ?u = "dropWhile isspace (rev ?t)"
  have u: "strip s = rev ?u" by (simp add: strip_def)
  with False have une: "?u \<noteq> []" by simp
  then have "\<not> isspace (hd ?u)" by (rule hd_dropWhile)
  moreover have "last (strip s) = hd ?u" using une by (simp add: u last_rev)
  ultimately have l: "\<not> isspace (last (strip s))" by simp
  have "rev ?t = takeWhile isspace (rev ?t) @ ?u" by simp
  then have "?t = rev ?u @ rev (takeWhile isspace (rev ?t))"
    by (metis rev_append rev_rev_ident)
  then have t: "?t = strip s @ rev (takeWhile isspace (rev ?t))" by (simp add: u)
  with False have "hd ?t = hd (strip s)" by (metis hd_append2)
  moreover from t False have "?t \<noteq> []" by (metis append_is_Nil_conv)
  then have "\<not> isspace (hd ?t)" by (rule hd_dropWhile)
  ultimately have "\<not> isspace (hd (strip s))" by simp
  with l show ?thesis by (simp add: is_stripped_def)
qed

lemma run_command_result:
  "snd (run_command w c) = (if fst (shell w c) = 0 then Some (strip (fst (snd (shell w c)))) else None)"
  by (simp add: run_command_def split: prod.split)

lemma minimal_run_command_result:
  "snd (minimal_run_command w c) =
     (if fst (shell w c) = 0 then Some (strip (fst (snd (shell w c)))) else None)"
  by (simp add: minimal_run_command_def split: prod.split)

lemma get_system_logs_fields:
  "job_info (snd (get_system_logs w job run)) =
     snd (run_command w (''autorep -j '' @ job @ '' -q''))"
  "system_logs (snd (get_system_logs w job run)) =
     snd (run_command w (if truthy_int run
        then ''autosyslog -j '' @ job @ '' -r '' @ str_int_opt run
        else ''autosyslog -j '' @ job))"
  "run_details (snd (get_system_logs w job run)) =
     snd (run_command w (if truthy_int run
        then ''autorep -j '' @ job @ '' -r '' @ str_int_opt run
        else ''autorep -j '' @ job @ '' -l''))"
  "status_history (snd (get_system_logs w job run)) =
     snd (run_command w (''autorep -j '' @ job @ '' -s''))"
  by (simp_all add: get_system_logs_def Let_def split: prod.split)

lemma minimal_get_system_logs_doc:
  "snd (minimal_get_system_logs w job run) =
     JObject [(''job_name'', JString job), (''run_number'', json_int run),
       (''system_logs'', json_str (snd (minimal_run_command w (if truthy_int run
          then ''autosyslog -j '' @ job @ '' -r '' @ str_int_opt run
          else ''autosyslog -j '' @ job))))]"
  by (simp add: minimal_get_system_logs_def Let_def split: prod.split)

lemma strip_demo: "strip ''  log line \<newline>'' = ''log line''"
  by (simp add: strip_def isspace_def)

section \<open>The prompts of the authenticated retriever\<close>

lemma no_prompt_simps [simp]:
  "no_prompt []"
  "no_prompt (e # evs) \<longleftrightarrow> \<not> is_getpass e \<and> \<not> is_input e \<and> no_prompt evs"
  "no_prompt (xs @ ys) \<longleftrightarrow> no_prompt xs \<and> no_prompt ys"
  by (auto simp: no_prompt_def)

lemma no_prompt_filter:
  "no_prompt evs \<Longrightarrow> filter is_getpass evs = [] \<and> filter is_input evs = [] \<and>
     filter (\<lambda>e. is_getpass e \<or> is_input e) evs = []"
  by (induction evs) (auto simp: no_prompt_def)

lemma no_prompt_details: "no_prompt (fst (auth_get_job_details w r job))"
  by (simp add: auth_get_job_details_def auth_parse_report_eq Let_def
      split: sum.split exn.split prod.split)

lemma no_prompt_retrieve: "no_prompt (fst (retrieve_log_via_autosys w r job b))"
  by (simp add: retrieve_log_via_autosys_def Let_def split: sum.split exn.split prod.split)

lemma no_prompt_section: "no_prompt (auth_stream_section w r d st)"
proof -
  obtain evs e where rl: "retrieve_log_via_autosys w r (job_name d) (st = Stdout) = (evs, e)"
    by (cases "retrieve_log_via_autosys w r (job_name d) (st = Stdout)") auto
  with no_prompt_retrieve[of w r "job_name d" "st = Stdout"] have "no_prompt evs" by simp
  with rl show ?thesis
    by (cases e) (simp_all add: auth_stream_section_def split: option.split sum.split)
qed

lemma no_prompt_header: "no_prompt (report_header d)"
  by (simp add: report_header_def)

lemma no_prompt_logs: "no_prompt (auth_get_job_logs w r d)"
  by (simp add: auth_get_job_logs_def no_prompt_header no_prompt_section)

lemma parse_arguments_ok:
  assumes "parse_arguments ns = (evs, Inr args)"
  shows "evs = []" and "truthy (args_job_name args)"
    and "args_username args = args_username ns" and "args_password args = args_password ns"
    and "args_instance args = args_instance ns" and "args_server args = args_server ns"
  using assms by (auto simp: parse_arguments_def Let_def split: if_splits)

lemma prompt_events:
  "fst (prompt_credentials w args) =
     (if truthy (args_username args) \<and> \<not> truthy (args_password args)
      then [Getpass (''Enter password for '' @ str_opt (args_username args) @ '': '')] else []) @
     (if truthy (args_username args) \<and> \<not> truthy (args_instance args)
      then [Input ''Enter Autosys instance name: ''] else [])"
  by (simp add: prompt_credentials_def Let_def)

lemma auth_main_trace:
  assumes "parse_arguments ns = (evs, Inr args)"
  shows "\<exists>pre post. fst (auth_main w ns) = pre @ fst (prompt_credentials w args) @ post \<and>
           no_prompt pre \<and> no_prompt post"
proof -
  from parse_arguments_ok[OF assms] obtain job where job: "args_job_name args = Some job"
    and evs: "evs = []"
    by (cases "args_job_name args") auto
  obtain prompts pw inst where pc: "prompt_credentials w args = (prompts, pw, inst)"
    by (cases "prompt_credentials w args") auto
  let ?r = "\<lparr>username = args_username args, password = pw,
                instance_name = inst, server = args_server args\<rparr>"
  let ?banner = "[Print (newline # replicate 20 CHR ''='' @ '' Autosys Log Retriever '' @
                         replicate 20 CHR ''=''),
                  Print (''Retrieving logs for job: '' @ job)]"
  obtain evd res where gd: "auth_get_job_details w ?r job = (evd, res)"
    by (cases "auth_get_job_details w ?r job") auto
  have npd: "no_prompt evd" using no_prompt_details[of w ?r job] gd by simp
  show ?thesis
  proof (cases res)
    case (Inl e)
    with assms evs job pc gd have "fst (auth_main w ns) = ?banner @ prompts @ (evd @ [PrintExn ''Error: '' e])"
      by (simp add: auth_main_def)
    with pc npd show ?thesis
      by (intro exI[of _ ?banner] exI[of _ "evd @ [PrintExn ''Error: '' e]"]) simp
  next
    case (Inr d)
    with assms evs job pc gd
    have "fst (auth_main w ns) = ?banner @ prompts @ (evd @ auth_get_job_logs w ?r d)"
      by (simp add: auth_main_def)
    with pc npd no_prompt_logs[of w ?r d] show ?thesis
      by (intro exI[of _ ?banner] exI[of _ "evd @ auth_get_job_logs w ?r d"]) simp
  qed
qed

section \<open>The log presenter\<close>

lemma header_no_exec: "filter is_exec (report_header d) = []"
  by (simp add: report_header_def)

lemma stderr_block_no_exec: "filter is_exec (stderr_block w p) = []"
  by (simp add: stderr_block_def split: sum.split)

lemma logs_stderr_section:
  "std_err_file d = Some p \<Longrightarrow> p \<noteq> [] \<Longrightarrow> path_exists w p \<Longrightarrow>
     logs_stream_section w d Stderr = stderr_block w p"
  by (simp add: logs_stream_section_def stderr_block_def split: sum.split)

lemma auth_stderr_section:
  "std_err_file d = Some p \<Longrightarrow> p \<noteq> [] \<Longrightarrow> path_exists w p \<Longrightarrow>
     auth_stream_section w r d Stderr = stderr_block w p"
  by (simp add: auth_stream_section_def stderr_block_def split: sum.split)

lemma logs_stdout_section:
  assumes "std_out_file d = Some p" "p \<noteq> []" "\<not> path_exists w p"
  shows "logs_stream_section w d Stdout =
     [Print (newline # ''STDOUT LOG ('' @ p @ ''):''),
      Print (replicate 80 CHR ''-''),
      Print ''Direct access to stdout file failed. Attempting to retrieve via Autosys utilities...''] @
     (case subprocess w [''autosyslog'', ''-j'', job_name d, ''-o''] of
        LaunchError msg \<Rightarrow>
          [Exec [''autosyslog'', ''-j'', job_name d, ''-o''],
           PrintExn ''Error accessing stdout log: '' (OSError msg)]
      | Completed rc out err \<Rightarrow>
          [Exec [''autosyslog'', ''-j'', job_name d, ''-o''], ChildOutput out err] @
          (if rc \<noteq> 0
           then [PrintExn ''Error accessing stdout log: ''
                   (CalledProcessError [''autosyslog'', ''-j'', job_name d, ''-o''] rc None None)]
           else []))"
  using assms
  by (simp add: logs_stream_section_def run_inherited_def split: proc_result.split)

lemma auth_stdout_section:
  assumes "std_out_file d = Some p" "p \<noteq> []" "\<not> path_exists w p"
  shows "auth_stream_section w r d Stdout =
     [Print (newline # ''STDOUT LOG ('' @ p @ ''):''),
      Print (replicate 80 CHR ''-''),
      Print ''Direct access to stdout file failed. Attempting to retrieve via Autosys utilities...''] @
     (case subprocess w (autosyslog_cmd r (job_name d) True) of
        LaunchError msg \<Rightarrow>
          [Exec (autosyslog_cmd r (job_name d) True),
           PrintExn ''Error accessing stdout log: '' (OSError msg)]
      | Completed rc out err \<Rightarrow>
          Exec (autosyslog_cmd r (job_name d) True) #
          (if rc \<noteq> 0
           then [Print (''Error running autosyslog command. Exit code: '' @ str_int rc),
                 Print (''Error message: '' @ err)]
           else [Print out]))"
  using assms
  by (simp add: auth_stream_section_def retrieve_log_via_autosys_def run_captured_def Let_def
      split: proc_result.split)

section \<open>The entry points\<close>








lemma empty_name_fields:
  "captured logs_status_pattern ''Status/Event: SUCCESS'' = Some ''SUCCESS''"
  "captured logs_last_run_pattern ''Status/Event: SUCCESS'' = None"
  "resolved_path ''std_out_file:'' ''.out'' [] ''Status/Event: SUCCESS'' = None"
  "resolved_path ''std_err_file:'' ''.err'' [] ''Status/Event: SUCCESS'' = None"
  by (simp_all add: captured_def logs_status_pattern_def logs_last_run_pattern_def match_here_def
      isword_def isdigit_def resolved_path_def next_token_def)

lemma empty_name_details:
  "logs_get_job_details (sample_env (Completed 0 ''Status/Event: SUCCESS'' []) (\<lambda>p. False)) [] =
     ([Exec [''autorep'', ''-j'', [], ''-L'']],
      Inr \<lparr>job_name = [], status = Some ''SUCCESS'', last_run = None,
           std_out_file = None, std_err_file = None\<rparr>)"
proof -
  have "subprocess (sample_env (Completed 0 ''Status/Event: SUCCESS'' []) (\<lambda>p. False))
          [''autorep'', ''-j'', [], ''-L''] = Completed 0 ''Status/Event: SUCCESS'' []"
    by (simp add: sample_env_def)
  from logs_get_job_details_ok[OF this] show ?thesis by (simp add: empty_name_fields)
qed

section \<open>Where a captured value stands\<close>

lemma first_token_empty_iff: "first_token r = [] \<longleftrightarrow> list_all isspace r"
proof
  assume e: "first_token r = []"
  have "dropWhile isspace r = []"
  proof (cases "dropWhile isspace r")
    case Nil
    then show ?thesis .
  next
    case (Cons c cs)
    then have "\<not> isspace c" using hd_dropWhile[of isspace r] by simp
    with Cons e show ?thesis by (simp add: first_token_def)
  qed
  then show "list_all isspace r" by (simp add: list_all_iff dropWhile_eq_Nil_conv)
next
  assume "list_all isspace r"
  then have "dropWhile isspace r = []" by (simp add: list_all_iff dropWhile_eq_Nil_conv)
  then show "first_token r = []" by (simp only: first_token_def takeWhile.simps)
qed

lemma no_value_next_token:
  "no_value l s \<longleftrightarrow> next_token l s = None \<or> next_token l s = Some []"
  by (cases "after_label l s") (simp_all add: no_value_def next_token_def first_token_empty_iff)

lemma first_token_of_line:
  assumes "first_token (takeWhile (\<lambda>c. c \<noteq> newline) r) \<noteq> []"
  shows "first_token r = first_token (takeWhile (\<lambda>c. c \<noteq> newline) r)"
proof -
  define a where "a = takeWhile (\<lambda>c. c \<noteq> newline) r"
  define b where "b = dropWhile (\<lambda>c. c \<noteq> newline) r"
  have r: "a @ b = r" by (simp add: a_def b_def)
  have b: "takeWhile (\<lambda>c. \<not> isspace c) b = []"
  proof (cases b)
    case Nil
    then show ?thesis by simp
  next
    case (Cons c cs)
    then have "c = newline" using hd_dropWhile[of "\<lambda>c. c \<noteq> newline" r] by (auto simp: b_def)
    with Cons show ?thesis by (simp add: isspace_newline)
  qed
  from assms have ne: "dropWhile isspace a \<noteq> []"
    unfolding first_token_def a_def by (metis takeWhile.simps(1))
  then obtain x where x: "x \<in> set a" "\<not> isspace x"
    by (auto simp: dropWhile_eq_Nil_conv)
  have d: "dropWhile isspace (a @ b) = dropWhile isspace a @ b"
    using x by (rule dropWhile_append1)
  have "first_token (a @ b) = takeWhile (\<lambda>c. \<not> isspace c) (dropWhile isspace a @ b)"
    unfolding first_token_def d ..
  also have "\<dots> = takeWhile (\<lambda>c. \<not> isspace c) (dropWhile isspace a)"
    using b by (simp add: takeWhile_append) (metis takeWhile_eq_all_conv)
  also have "\<dots> = first_token a" by (simp add: first_token_def)
  finally have f: "first_token (a @ b) = first_token a" .
  from f[unfolded r] show ?thesis unfolding a_def .
qed

lemma line_value_next_token:
  assumes "line_value l s = Some v" and "v \<noteq> []"
  shows "next_token l s = Some v"
proof -
  from assms(1) obtain rest where r: "after_label l s = Some rest"
    and v: "v = first_token (takeWhile (\<lambda>c. c \<noteq> newline) rest)"
    by (auto simp: line_value_def rest_of_line_def)
  from v assms(2) have "first_token rest = v" using first_token_of_line[of rest] by simp
  with r show ?thesis by (simp add: next_token_def)
qed

lemma later_line_only_if_blank:
  assumes "next_token l s = Some v" and "line_value l s \<noteq> Some v"
  shows "line_value l s = Some []"
proof -
  from assms(1) obtain rest where "after_label l s = Some rest"
    by (auto simp: next_token_def)
  then obtain x where x: "line_value l s = Some x"
    by (simp add: line_value_def rest_of_line_def)
  show ?thesis
  proof (cases "x = []")
    case True
    with x show ?thesis by simp
  next
    case False
    from line_value_next_token[OF x False] assms x show ?thesis by simp
  qed
qed

lemma after_label_split: "after_label l s = Some rest \<Longrightarrow> \<exists>pre. s = pre @ l @ rest"
proof (induction s)
  case Nil
  then show ?case by (auto split: if_splits)
next
  case (Cons c cs)
  show ?case
  proof (cases "prefix l (c # cs)")
    case True
    with Cons.prems have "rest = drop (length l) (c # cs)" by simp
    moreover from True have "c # cs = l @ drop (length l) (c # cs)" by (auto simp: prefix_def)
    ultimately show ?thesis by (intro exI[of _ "[]"]) simp
  next
    case False
    with Cons.prems have "after_label l cs = Some rest" by simp
    from Cons.IH[OF this] obtain pre where "cs = pre @ l @ rest" by blast
    then show ?thesis by (intro exI[of _ "c # pre"]) simp
  qed
qed

lemma first_token_split:
  "\<exists>ws post. r = ws @ first_token r @ post \<and> (\<forall>c \<in> set ws. isspace c) \<and>
     (post = [] \<or> isspace (hd post))"
proof -
  let ?ws = "takeWhile isspace r" and ?t = "dropWhile isspace r"
  let ?post = "dropWhile (\<lambda>c. \<not> isspace c) ?t"
  have "r = ?ws @ first_token r @ ?post" by (simp add: first_token_def)
  moreover have "\<forall>c \<in> set ?ws. isspace c" by (auto dest: set_takeWhileD)
  moreover have "?post = [] \<or> isspace (hd ?post)"
    using hd_dropWhile[of "\<lambda>c. \<not> isspace c" ?t] by auto
  ultimately show ?thesis by blast
qed

lemma next_token_position:
  assumes "next_token l s = Some v"
  shows "\<exists>ws post. stands_after l ws v s \<and> (\<forall>c \<in> set ws. isspace c)"
proof -
  from assms obtain rest where r: "after_label l s = Some rest" and v: "v = first_token rest"
    by (auto simp: next_token_def)
  from after_label_split[OF r] obtain pre where s: "s = pre @ l @ rest" by blast
  from first_token_split[of rest] obtain ws post where
    "rest = ws @ first_token rest @ post" "\<forall>c \<in> set ws. isspace c" by blast
  with s v have "s = pre @ l @ ws @ v @ post" by simp
  with \<open>\<forall>c \<in> set ws. isspace c\<close> show ?thesis unfolding stands_after_def by blast
qed

lemma final_group_position:
  assumes "captured (Seq a (Group 1 b)) s = Some v"
  shows "\<exists>u. matches a u \<and> matches b v \<and> stands_after u [] v s"
proof -
  from assms obtain m where m: "re_search (Seq a (Group 1 b)) s = Some m" "m 1 = Some v"
    by (auto simp: captured_def split: option.splits)
  from re_search_sound[OF m(1)] obtain t where
    t: "suffix t s" "rmatch a (rmatch (Group 1 b) (\<lambda>g s'. Some g)) (\<lambda>n. None) t = Some m"
    by (auto simp: match_here_def)
  from t(1) obtain pre where pre: "s = pre @ t" by (auto simp: suffix_def)
  from rmatch_sound[OF t(2)] obtain u1 s1 g1 where
    1: "t = u1 @ s1" "matches a u1" "rmatch (Group 1 b) (\<lambda>g s'. Some g) g1 s1 = Some m" by blast
  from 1(3) have
    "rmatch b (\<lambda>g' s'. Some (g'(1 := Some (take (length s1 - length s') s1)))) g1 s1 = Some m"
    by simp
  from rmatch_sound[OF this] obtain u s2 g2 where
    u: "s1 = u @ s2" "matches b u" "Some (g2(1 := Some (take (length s1 - length s2) s1))) = Some m"
    by blast
  from u(3) have "m 1 = Some (take (length s1 - length s2) s1)" by auto
  with u(1) m(2) have "v = u" by simp
  with pre 1(1) u(1) have "s = pre @ u1 @ [] @ v @ s2" by simp
  then have "stands_after u1 [] v s" unfolding stands_after_def by blast
  with 1(2) u(2) \<open>v = u\<close> show ?thesis by blast
qed

lemma plain_status_position:
  "captured logs_status_pattern s = Some x \<Longrightarrow> stands_after ''Status/Event: '' [] x s"
  unfolding logs_status_pattern_def by (drule final_group_position) auto

lemma plain_last_run_position:
  "captured logs_last_run_pattern s = Some y \<Longrightarrow> stands_after ''Last Run: '' [] y s"
  unfolding logs_last_run_pattern_def by (drule final_group_position) auto

lemma stands_after_ws:
  assumes "stands_after (l @ ws) [] v s"
  shows "stands_after l ws v s"
  using assms unfolding stands_after_def by auto

lemma auth_status_position:
  assumes "captured STATUS_PATTERN s = Some x"
  shows "\<exists>ws. stands_after ''Status/Event:'' ws x s \<and> ws \<noteq> [] \<and> (\<forall>c \<in> set ws. isspace c)"
proof -
  from assms have "captured (Seq (Seq (Lit ''Status/Event:'') (Plus isspace)) (Group 1 (Plus isword))) s = Some x"
    unfolding STATUS_PATTERN_def captured_def seq_assoc_search .
  from final_group_position[OF this] obtain u where
    u: "matches (Seq (Lit ''Status/Event:'') (Plus isspace)) u" "stands_after u [] x s" by blast
  from u(1) obtain ws where "u = ''Status/Event:'' @ ws" "ws \<noteq> []" "\<forall>c \<in> set ws. isspace c"
    by auto
  with u(2) stands_after_ws[of "''Status/Event:''" ws x s] show ?thesis by blast
qed

lemma auth_last_run_position:
  assumes "captured LAST_RUN_PATTERN s = Some y"
  shows "\<exists>ws. stands_after ''Last Run:'' ws y s \<and> ws \<noteq> [] \<and> (\<forall>c \<in> set ws. isspace c)"
proof -
  from assms have "captured (Seq (Seq (Lit ''Last Run:'') (Plus isspace))
      (Group 1 (Seq (Plus date_char) (Seq (Plus isspace) (Plus time_char))))) s = Some y"
    unfolding LAST_RUN_PATTERN_def captured_def seq_assoc_search .
  from final_group_position[OF this] obtain u where
    u: "matches (Seq (Lit ''Last Run:'') (Plus isspace)) u" "stands_after u [] y s" by blast
  from u(1) obtain ws where "u = ''Last Run:'' @ ws" "ws \<noteq> []" "\<forall>c \<in> set ws. isspace c"
    by auto
  with u(2) stands_after_ws[of "''Last Run:''" ws y s] show ?thesis by blast
qed

section \<open>Claims\<close>










text \<open>
  C1. A label with nothing but whitespace after it gives an empty capture. The checks
  on \<open>std_out_file\<close> and \<open>std_err_file\<close> treat it as unset, but the empty
  \<open>job_dir\<close> capture is joined with the file names all the same, and the empty
  capture of a metadata attribute is stored: for the job \<open>j\<close> and a report that ends
  in an empty \<open>job_dir:\<close> both extractors derive the paths \<open>j.out\<close> and \<open>j.err\<close>,
  and an empty \<open>machine:\<close> is stored as the empty string.
\<close>

theorem empty_capture_is_used:
  "logs_parse_report ''j'' ''Status/Event: SUCCESS\<newline>job_dir:\<newline>'' =
     Inr \<lparr>job_name = ''j'', status = Some ''SUCCESS'', last_run = None,
          std_out_file = Some ''j.out'', std_err_file = Some ''j.err''\<rparr> \<and>
   auth_parse_report ''j'' ''Status/Event: SUCCESS\<newline>job_dir:\<newline>'' =
     Inr \<lparr>job_name = ''j'', status = Some ''SUCCESS'', last_run = None,
          std_out_file = Some ''j.out'', std_err_file = Some ''j.err''\<rparr> \<and>
   extract_job_metadata (Some ''command: ls\<newline>machine:'') =
     [(''machine'', Some []), (''command'', Some ''ls'')]"
  by (simp add: logs_parse_report_eq auth_parse_report_eq empty_demo_fields resolved_path_def
      empty_demo_labels empty_demo_metadata path_join_def)

theorem empty_capture_is_used_witness:
  "map_of (extract_job_metadata (Some ''command: ls\<newline>machine:'')) ''machine''
     = Some (Some []) \<and>
   logs_parse_report ''j'' ''Status/Event: SUCCESS\<newline>job_dir:\<newline>'' \<noteq> Inl TypeError \<and>
   auth_parse_report ''j'' ''Status/Event: SUCCESS\<newline>job_dir:\<newline>'' \<noteq> Inl AttributeError"
  using empty_capture_is_used by simp

text \<open>
  C8. Whatever credentials the retriever holds, the flags that follow the four fixed
  words of the \<open>autorep\<close> command line are the flags that follow the four fixed words
  of the \<open>autosyslog\<close> command line, flag for flag and in the same order: \<open>-u\<close>,
  \<open>-p\<close>, \<open>-i\<close>, \<open>-s\<close>, each with its value, and each left out of both when the
  credential is absent (\<open>None\<close> or empty).
\<close>

theorem credential_flags_agree:
  "drop 4 (autorep_cmd r job) = drop 4 (autosyslog_cmd r job is_stdout) \<and>
   take 4 (autorep_cmd r job) = [''autorep'', ''-j'', job, ''-L''] \<and>
   take 4 (autosyslog_cmd r job is_stdout) =
     [''autosyslog'', ''-j'', job, if is_stdout then ''-o'' else ''-e''] \<and>
   drop 4 (autorep_cmd r job) =
     (if truthy (username r) then [''-u'', str_opt (username r)] else []) @
     (if truthy (password r) then [''-p'', str_opt (password r)] else []) @
     (if truthy (instance_name r) then [''-i'', str_opt (instance_name r)] else []) @
     (if truthy (server r) then [''-s'', str_opt (server r)] else [])"
proof -
  have ext: "extend_if cmd f v = cmd @ (if truthy v then [f, str_opt v] else [])" for cmd f v
    by (cases v) (simp_all add: extend_if_def)
  show ?thesis by (simp add: autorep_cmd_def autosyslog_cmd_def ext)
qed

theorem credential_flags_agree_witness:
  "drop 4 (autorep_cmd \<lparr>username = Some ''ops'', password = None, instance_name = Some ''ACE'',
                         server = Some []\<rparr> ''J'') = [''-u'', ''ops'', ''-i'', ''ACE''] \<and>
   drop 4 (autosyslog_cmd \<lparr>username = Some ''ops'', password = None, instance_name = Some ''ACE'',
                         server = Some []\<rparr> ''J'' True) = [''-u'', ''ops'', ''-i'', ''ACE'']"
proof -
  let ?r = "\<lparr>username = Some ''ops'', password = None, instance_name = Some ''ACE'',
             server = Some []\<rparr>"
  note t = credential_flags_agree[of ?r "''J''" True]
  from t have same: "drop 4 (autorep_cmd ?r ''J'') = drop 4 (autosyslog_cmd ?r ''J'' True)"
    by blast
  from t[THEN conjunct2, THEN conjunct2, THEN conjunct2]
  have flags: "drop 4 (autorep_cmd ?r ''J'') = [''-u'', ''ops'', ''-i'', ''ACE'']"
    by simp
  from same flags show ?thesis by simp
qed

text \<open>
  C10. In both summarizers \<open>run_command\<close> returns the standard output of a command
  that succeeds with the whitespace at both ends removed, and the result of
  \<open>strip\<close> has no whitespace at either end; so the job info and every text field of
  the JSON reports (\<open>system_logs\<close>, \<open>run_details\<close>, \<open>status_history\<close>) is
  \<open>null\<close> or a stripped text.
\<close>

theorem run_command_strips:
  "(fst (shell w c) = 0 \<longrightarrow>
      snd (run_command w c) = Some (strip (fst (snd (shell w c)))) \<and>
      snd (minimal_run_command w c) = Some (strip (fst (snd (shell w c))))) \<and>
   is_stripped (strip s) \<and>
   null_or_stripped (json_str (job_info (snd (get_system_logs w job run)))) \<and>
   (\<forall>k \<in> {''system_logs'', ''run_details'', ''status_history''}.
      \<exists>j. json_field k (system_report w a md (snd (get_system_logs w job run))) = Some j \<and>
          null_or_stripped j) \<and>
   (\<exists>j. json_field ''system_logs'' (snd (minimal_get_system_logs w job run)) = Some j \<and>
        null_or_stripped j)"
  by (simp add: run_command_result minimal_run_command_result strip_is_stripped
      get_system_logs_fields minimal_get_system_logs_doc system_report_def)


theorem run_command_strips_witness:
  "fst (shell (sample_env (Completed 0 ''  log line \<newline>'' []) (\<lambda>p. False)) ''autosyslog -j J'') = 0 \<and>
   snd (run_command (sample_env (Completed 0 ''  log line \<newline>'' []) (\<lambda>p. False)) ''autosyslog -j J'')
     = Some ''log line'' \<and>
   snd (minimal_run_command (sample_env (Completed 0 ''  log line \<newline>'' []) (\<lambda>p. False))
     ''autosyslog -j J'') = Some ''log line''"
proof -
  let ?w = "sample_env (Completed 0 ''  log line \<newline>'' []) (\<lambda>p. False)"
  have sh: "shell ?w ''autosyslog -j J'' = (0, ''  log line \<newline>'', [])"
    by (simp add: sample_env_def)
  from run_command_strips[of ?w "''autosyslog -j J''"] sh strip_demo
  show ?thesis by simp
qed

text \<open>
  C7. In a run of the authenticated retriever that has its job name, the prompts are
  exactly these, in this order: one password prompt without echo when a user name is
  given and no password, and one plain instance prompt when a user name is given and
  no instance. So a user name with a password gives no password prompt, and without a
  user name there is no prompt at all. (Given means: not \<open>None\<close> and not empty.)
\<close>

theorem prompts_follow_credentials:
  assumes "parse_arguments ns = (evs, Inr args)"
  shows "filter (\<lambda>e. is_getpass e \<or> is_input e) (fst (auth_main w ns)) =
           (if truthy (args_username ns) \<and> \<not> truthy (args_password ns)
            then [Getpass (''Enter password for '' @ str_opt (args_username ns) @ '': '')] else []) @
           (if truthy (args_username ns) \<and> \<not> truthy (args_instance ns)
            then [Input ''Enter Autosys instance name: ''] else []) \<and>
         length (filter is_getpass (fst (auth_main w ns))) =
           (if truthy (args_username ns) \<and> \<not> truthy (args_password ns) then 1 else 0) \<and>
         length (filter is_input (fst (auth_main w ns))) =
           (if truthy (args_username ns) \<and> \<not> truthy (args_instance ns) then 1 else 0)"
proof -
  from auth_main_trace[OF assms, of w] obtain pre post where
    tr: "fst (auth_main w ns) = pre @ fst (prompt_credentials w args) @ post"
    and np: "no_prompt pre" "no_prompt post" by blast
  note f1 = no_prompt_filter[OF np(1)] and f2 = no_prompt_filter[OF np(2)]
  from parse_arguments_ok[OF assms] have same:
    "args_username args = args_username ns" "args_password args = args_password ns"
    "args_instance args = args_instance ns" by simp_all
  show ?thesis unfolding tr prompt_events same using f1 f2 by simp
qed


theorem prompts_follow_credentials_witness:
  "parse_arguments \<lparr>args_job_name = Some ''J'', args_username = Some ''ops'',
       args_password = None, args_instance = None, args_server = None,
       args_job_name_positional = None\<rparr> =
     ([], Inr \<lparr>args_job_name = Some ''J'', args_username = Some ''ops'',
       args_password = None, args_instance = None, args_server = None,
       args_job_name_positional = None\<rparr>) \<and>
   length (filter is_getpass (fst (auth_main (sample_env (Completed 1 [] ''denied'') (\<lambda>p. False))
     \<lparr>args_job_name = Some ''J'', args_username = Some ''ops'',
       args_password = None, args_instance = None, args_server = None,
       args_job_name_positional = None\<rparr>))) = 1 \<and>
   length (filter is_input (fst (auth_main (sample_env (Completed 1 [] ''denied'') (\<lambda>p. False))
     \<lparr>args_job_name = Some ''J'', args_username = Some ''ops'',
       args_password = None, args_instance = None, args_server = None,
       args_job_name_positional = None\<rparr>))) = 1"
proof -
  let ?ns = "\<lparr>args_job_name = Some ''J'', args_username = Some ''ops'',
       args_password = None, args_instance = None, args_server = None,
       args_job_name_positional = None\<rparr>"
  have p: "parse_arguments ?ns = ([], Inr ?ns)"
    by (simp add: parse_arguments_def)
  from prompts_follow_credentials[OF p, of "sample_env (Completed 1 [] ''denied'') (\<lambda>p. False)"] p
  show ?thesis by simp
qed

text \<open>
  C5. For a job details record whose standard output path does not exist and whose
  standard error path exists, the log presenter of either retriever starts exactly
  one external command, the fallback for standard output (\<open>autosyslog -j <job> -o\<close>,
  with the credential flags in the authenticated retriever), and none for standard
  error. The presentation ends with the section of the standard error stream
  whatever the fallback did; when the fallback exits with a status other than 0 or
  cannot be started, the failure is printed.
\<close>

theorem fallback_once_for_stdout:
  assumes "std_out_file d = Some p1" and "p1 \<noteq> []" and "\<not> path_exists w p1"
    and "std_err_file d = Some p2" and "p2 \<noteq> []" and "path_exists w p2"
  shows "filter is_exec (logs_get_job_logs w d) =
           [Exec [''autosyslog'', ''-j'', job_name d, ''-o'']] \<and>
         filter is_exec (auth_get_job_logs w r d) =
           [Exec (autosyslog_cmd r (job_name d) True)] \<and>
         (\<exists>pre. logs_get_job_logs w d = pre @ stderr_block w p2) \<and>
         (\<exists>pre. auth_get_job_logs w r d = pre @ stderr_block w p2) \<and>
         (subprocess w [''autosyslog'', ''-j'', job_name d, ''-o''] = Completed rc out err \<and> rc \<noteq> 0
            \<longrightarrow> PrintExn ''Error accessing stdout log: ''
                  (CalledProcessError [''autosyslog'', ''-j'', job_name d, ''-o''] rc None None)
                \<in> set (logs_get_job_logs w d)) \<and>
         (subprocess w [''autosyslog'', ''-j'', job_name d, ''-o''] = LaunchError msg
            \<longrightarrow> PrintExn ''Error accessing stdout log: '' (OSError msg)
                \<in> set (logs_get_job_logs w d)) \<and>
         (subprocess w (autosyslog_cmd r (job_name d) True) = Completed rc out err \<and> rc \<noteq> 0
            \<longrightarrow> Print (''Error running autosyslog command. Exit code: '' @ str_int rc)
                  \<in> set (auth_get_job_logs w r d) \<and>
                Print (''Error message: '' @ err) \<in> set (auth_get_job_logs w r d)) \<and>
         (subprocess w (autosyslog_cmd r (job_name d) True) = LaunchError msg
            \<longrightarrow> PrintExn ''Error accessing stdout log: '' (OSError msg)
                \<in> set (auth_get_job_logs w r d))"
proof -
  note lo = logs_stdout_section[OF assms(1-3)] and le = logs_stderr_section[OF assms(4-6)]
  note ao = auth_stdout_section[OF assms(1-3), of r] and ae = auth_stderr_section[OF assms(4-6), of r]
  have 1: "filter is_exec (logs_get_job_logs w d) = [Exec [''autosyslog'', ''-j'', job_name d, ''-o'']]"
    unfolding logs_get_job_logs_def lo le
    by (simp add: header_no_exec stderr_block_no_exec split: proc_result.split)
  have 2: "filter is_exec (auth_get_job_logs w r d) = [Exec (autosyslog_cmd r (job_name d) True)]"
    unfolding auth_get_job_logs_def ao ae
    by (simp add: header_no_exec stderr_block_no_exec split: proc_result.split)
  have 3: "\<exists>pre. logs_get_job_logs w d = pre @ stderr_block w p2"
    unfolding logs_get_job_logs_def le by (metis append.assoc)
  have 4: "\<exists>pre. auth_get_job_logs w r d = pre @ stderr_block w p2"
    unfolding auth_get_job_logs_def ae by (metis append.assoc)
  have 5: "subprocess w [''autosyslog'', ''-j'', job_name d, ''-o''] = Completed rc out err \<and> rc \<noteq> 0
            \<longrightarrow> PrintExn ''Error accessing stdout log: ''
                  (CalledProcessError [''autosyslog'', ''-j'', job_name d, ''-o''] rc None None)
                \<in> set (logs_get_job_logs w d)"
    unfolding logs_get_job_logs_def lo by simp
  have 6: "subprocess w [''autosyslog'', ''-j'', job_name d, ''-o''] = LaunchError msg
            \<longrightarrow> PrintExn ''Error accessing stdout log: '' (OSError msg)
                \<in> set (logs_get_job_logs w d)"
    unfolding logs_get_job_logs_def lo by simp
  have 7: "subprocess w (autosyslog_cmd r (job_name d) True) = Completed rc out err \<and> rc \<noteq> 0
            \<longrightarrow> Print (''Error running autosyslog command. Exit code: '' @ str_int rc)
                  \<in> set (auth_get_job_logs w r d) \<and>
                Print (''Error message: '' @ err) \<in> set (auth_get_job_logs w r d)"
    unfolding auth_get_job_logs_def ao by simp
  have 8: "subprocess w (autosyslog_cmd r (job_name d) True) = LaunchError msg
            \<longrightarrow> PrintExn ''Error accessing stdout log: '' (OSError msg)
                \<in> set (auth_get_job_logs w r d)"
    unfolding auth_get_job_logs_def ao by simp
  from 1 2 3 4 5 6 7 8 show ?thesis by blast
qed


theorem fallback_once_for_stdout_witness:
  "\<not> path_exists (sample_env (Completed 1 [] ''no such job'') (\<lambda>p. p = ''/logs/J.err'')) ''/logs/J.out'' \<and>
   path_exists (sample_env (Completed 1 [] ''no such job'') (\<lambda>p. p = ''/logs/J.err'')) ''/logs/J.err'' \<and>
   filter is_exec (logs_get_job_logs (sample_env (Completed 1 [] ''no such job'') (\<lambda>p. p = ''/logs/J.err''))
      \<lparr>job_name = ''J'', status = None, last_run = None,
       std_out_file = Some ''/logs/J.out'', std_err_file = Some ''/logs/J.err''\<rparr>) =
     [Exec [''autosyslog'', ''-j'', ''J'', ''-o'']] \<and>
   filter is_exec (auth_get_job_logs (sample_env (Completed 1 [] ''no such job'') (\<lambda>p. p = ''/logs/J.err''))
      \<lparr>username = None, password = None, instance_name = None, server = None\<rparr>
      \<lparr>job_name = ''J'', status = None, last_run = None,
       std_out_file = Some ''/logs/J.out'', std_err_file = Some ''/logs/J.err''\<rparr>) =
     [Exec [''autosyslog'', ''-j'', ''J'', ''-o'']] \<and>
   PrintExn ''Error accessing stdout log: ''
       (CalledProcessError [''autosyslog'', ''-j'', ''J'', ''-o''] 1 None None)
     \<in> set (logs_get_job_logs (sample_env (Completed 1 [] ''no such job'') (\<lambda>p. p = ''/logs/J.err''))
      \<lparr>job_name = ''J'', status = None, last_run = None,
       std_out_file = Some ''/logs/J.out'', std_err_file = Some ''/logs/J.err''\<rparr>)"
proof -
  let ?w = "sample_env (Completed 1 [] ''no such job'') (\<lambda>p. p = ''/logs/J.err'')"
  let ?d = "\<lparr>job_name = ''J'', status = None, last_run = None,
       std_out_file = Some ''/logs/J.out'', std_err_file = Some ''/logs/J.err''\<rparr>"
  let ?r = "\<lparr>username = None, password = None, instance_name = None, server = None\<rparr>"
  have h: "std_out_file ?d = Some ''/logs/J.out''" "''/logs/J.out'' \<noteq> []"
    "\<not> path_exists ?w ''/logs/J.out''"
    "std_err_file ?d = Some ''/logs/J.err''" "''/logs/J.err'' \<noteq> []"
    "path_exists ?w ''/logs/J.err''"
    by (simp_all add: sample_env_def)
  have sp: "subprocess ?w cmd = Completed 1 [] ''no such job''" for cmd
    by (simp add: sample_env_def)
  have cmd: "autosyslog_cmd ?r ''J'' True = [''autosyslog'', ''-j'', ''J'', ''-o'']"
    by (simp add: autosyslog_cmd_def extend_if_def)
  from fallback_once_for_stdout[OF h, of ?r 1 "[]" "''no such job''"] h(3,6) sp cmd
  show ?thesis by simp
qed








text \<open>
  C9. \<open>autosys-logs.py\<close> checks the number of arguments only: called with the empty
  string as its job name, it goes on, builds a job details record whose \<open>job_name\<close>
  is empty and prints the report for it. The authenticated retriever refuses the same
  job name in \<open>parse_arguments\<close> (exit status 2).
\<close>

theorem empty_job_name_accepted:
  "logs_get_job_details (sample_env (Completed 0 ''Status/Event: SUCCESS'' []) (\<lambda>p. False)) [] =
     ([Exec [''autorep'', ''-j'', [], ''-L'']],
      Inr \<lparr>job_name = [], status = Some ''SUCCESS'', last_run = None,
           std_out_file = None, std_err_file = None\<rparr>) \<and>
   snd (logs_main (sample_env (Completed 0 ''Status/Event: SUCCESS'' []) (\<lambda>p. False))
          [''autosys-logs.py'', []]) = 0 \<and>
   Print ''Job Name: '' \<in> set (fst (logs_main
      (sample_env (Completed 0 ''Status/Event: SUCCESS'' []) (\<lambda>p. False)) [''autosys-logs.py'', []])) \<and>
   snd (parse_arguments \<lparr>args_job_name = Some [], args_username = None, args_password = None,
      args_instance = None, args_server = None, args_job_name_positional = None\<rparr>) = Inl 2"
  by (simp add: empty_name_details logs_main_def logs_get_job_logs_def report_header_def
      parse_arguments_def)

theorem empty_job_name_accepted_witness:
  "snd (logs_main (sample_env (Completed 0 ''Status/Event: SUCCESS'' []) (\<lambda>p. False))
          [''autosys-logs.py'', []]) \<noteq> 1 \<and>
   map_sum id job_name
     (snd (logs_get_job_details (sample_env (Completed 0 ''Status/Event: SUCCESS'' []) (\<lambda>p. False)) []))
     = Inr []"
  using empty_job_name_accepted by simp

end
